theory Spec2Isabelle
  imports Main "HOL-Library.AList" "HOL-Library.Char_ord" "HOL-Library.List_Lexorder"
begin

section \<open>Values of the program\<close>

text \<open>
  The tap handles parsed JSON: the rows of a page, the fields of a row, the persisted
  state. A Python \<open>dict\<close> keeps its keys in insertion order, so an object is an
  association list; \<open>d[k] = v\<close> is \<open>AList.update\<close> (an existing key keeps its
  place, a new key goes last) and \<open>d.pop(k, None)\<close> is \<open>AList.delete\<close>.
  The keys of an object are distinct, as they are in a \<open>dict\<close>. JSON numbers are
  Python ints here; floating point numbers are outside the model. Text is ASCII.
\<close>

datatype json =
    JNull
  | JBool bool
  | JInt int
  | JStr string
  | JList "json list"
  | JObj "(string \<times> json) list"

datatype error =
    HTTPError nat json
  | RequestException
  | KeyError string
  | TypeError
  | AttributeError
  | ValueError
  | SystemExit nat

subsection \<open>The builtins the source calls\<close>

text \<open>\<open>str(n)\<close> for an int.\<close>

definition digit :: "nat \<Rightarrow> char" where
  "digit n = ''0123456789'' ! n"

function str_nat :: "nat \<Rightarrow> string" where
  "str_nat n = (if n < 10 then [digit n] else str_nat (n div 10) @ [digit (n mod 10)])"
  by pat_completeness auto
termination
  by (relation "measure id") auto

declare str_nat.simps [simp del]

definition str_int :: "int \<Rightarrow> string" where
  "str_int i = (if i < 0 then CHR ''-'' # str_nat (nat (- i)) else str_nat (nat i))"

text \<open>
  \<open>repr(s)\<close> for a str: single quotes, unless the text has a single quote and no
  double quote; the quote and the backslash are escaped, tab, newline and carriage return
  are written \<open>\t\<close>, \<open>\n\<close>, \<open>\r\<close>, and the other control characters as \<open>\xhh\<close>.
\<close>

definition hex_digit :: "nat \<Rightarrow> char" where
  "hex_digit n = ''0123456789abcdef'' ! n"

definition repr_char :: "char \<Rightarrow> char \<Rightarrow> string" where
  "repr_char q c =
     (if c = q \<or> c = CHR 0x5C then [CHR 0x5C, c]
      else if c = CHR 0x09 then [CHR 0x5C, CHR ''t'']
      else if c = CHR 0x0A then [CHR 0x5C, CHR ''n'']
      else if c = CHR 0x0D then [CHR 0x5C, CHR ''r'']
      else if (of_char c :: nat) < 32 \<or> (of_char c :: nat) = 127
        then [CHR 0x5C, CHR ''x'', hex_digit (of_char c div 16), hex_digit (of_char c mod 16)]
      else [c])"

definition repr_str :: "string \<Rightarrow> string" where
  "repr_str s =
     (let q = (if CHR 0x27 \<in> set s \<and> CHR 0x22 \<notin> set s then CHR 0x22 else CHR 0x27)
      in q # concat (map (repr_char q) s) @ [q])"

text \<open>\<open>', '.join(parts)\<close>.\<close>

fun join_comma :: "string list \<Rightarrow> string" where
  "join_comma [] = []"
| "join_comma [p] = p"
| "join_comma (p # ps) = p @ '', '' @ join_comma ps"

text \<open>
  \<open>repr(v)\<close> and \<open>str(v)\<close>: they differ on a str only, which \<open>str\<close> returns
  as it is and \<open>repr\<close> quotes; the elements of a list and the keys and values of a dict
  are written with \<open>repr\<close>.
\<close>

fun py_repr :: "json \<Rightarrow> string" where
  "py_repr JNull = ''None''"
| "py_repr (JBool b) = (if b then ''True'' else ''False'')"
| "py_repr (JInt i) = str_int i"
| "py_repr (JStr s) = repr_str s"
| "py_repr (JList xs) = ''['' @ join_comma (map py_repr xs) @ '']''"
| "py_repr (JObj kvs) =
     ''{'' @ join_comma (map (\<lambda>kv. repr_str (fst kv) @ '': '' @ py_repr (snd kv)) kvs) @ ''}''"

definition py_str :: "json \<Rightarrow> string" where
  "py_str v = (case v of JStr s \<Rightarrow> s | _ \<Rightarrow> py_repr v)"

text \<open>\<open>s.lower()\<close> on ASCII text.\<close>

definition lower_char :: "char \<Rightarrow> char" where
  "lower_char c =
     (case map_of (zip ''ABCDEFGHIJKLMNOPQRSTUVWXYZ'' ''abcdefghijklmnopqrstuvwxyz'') c of
        None \<Rightarrow> c
      | Some l \<Rightarrow> l)"

definition lower :: "string \<Rightarrow> string" where
  "lower s = map lower_char s"

text \<open>
  \<open>v[key]\<close> with a str key: the value of a dict, \<open>KeyError\<close> when the dict has no
  such key, \<open>TypeError\<close> on anything that is not a dict.
\<close>

definition py_getitem :: "json \<Rightarrow> string \<Rightarrow> error + json" where
  "py_getitem v k =
     (case v of
        JObj kvs \<Rightarrow> (case map_of kvs k of None \<Rightarrow> Inl (KeyError k) | Some x \<Rightarrow> Inr x)
      | _ \<Rightarrow> Inl TypeError)"

text \<open>\<open>d.items()\<close>: only a dict has the method.\<close>

definition py_items :: "json \<Rightarrow> error + (string \<times> json) list" where
  "py_items v = (case v of JObj kvs \<Rightarrow> Inr kvs | _ \<Rightarrow> Inl AttributeError)"

text \<open>
  \<open>a == b\<close> and \<open>a >= b\<close>. \<open>bool\<close> is a subclass of \<open>int\<close>, so \<open>True == 1\<close>.
  Two dicts are equal when they have the same keys with equal values, in any order. Lists
  compare by their first pair of unequal elements, then by length. A str is ordered by
  code points, and only against a str: every other mix raises \<open>TypeError\<close>.
\<close>

fun py_num :: "json \<Rightarrow> int option" where
  "py_num (JInt i) = Some i"
| "py_num (JBool b) = Some (if b then 1 else 0)"
| "py_num _ = None"

fun py_eq :: "json \<Rightarrow> json \<Rightarrow> bool"
  and list_eq :: "json list \<Rightarrow> json list \<Rightarrow> bool"
  and dict_has :: "string \<Rightarrow> json \<Rightarrow> (string \<times> json) list \<Rightarrow> bool"
  and dict_sub :: "(string \<times> json) list \<Rightarrow> (string \<times> json) list \<Rightarrow> bool" where
  "py_eq JNull JNull = True"
| "py_eq (JStr a) (JStr b) = (a = b)"
| "py_eq (JList xs) (JList ys) = list_eq xs ys"
| "py_eq (JObj xs) (JObj ys) = (length xs = length ys \<and> dict_sub xs ys)"
| "py_eq a b = (case (py_num a, py_num b) of (Some i, Some j) \<Rightarrow> i = j | _ \<Rightarrow> False)"
| "list_eq [] [] = True"
| "list_eq (x # xs) (y # ys) = (py_eq x y \<and> list_eq xs ys)"
| "list_eq _ _ = False"
| "dict_has k v [] = False"
| "dict_has k v ((k', w) # ys) = (if k = k' then py_eq v w else dict_has k v ys)"
| "dict_sub [] ys = True"
| "dict_sub ((k, v) # xs) ys = (dict_has k v ys \<and> dict_sub xs ys)"

fun py_ge :: "json \<Rightarrow> json \<Rightarrow> error + bool"
  and list_ge :: "json list \<Rightarrow> json list \<Rightarrow> error + bool" where
  "py_ge (JStr a) (JStr b) = Inr (b \<le> a)"
| "py_ge (JList xs) (JList ys) = list_ge xs ys"
| "py_ge a b =
     (case (py_num a, py_num b) of (Some i, Some j) \<Rightarrow> Inr (j \<le> i) | _ \<Rightarrow> Inl TypeError)"
| "list_ge [] ys = Inr (ys = [])"
| "list_ge (x # xs) [] = Inr True"
| "list_ge (x # xs) (y # ys) = (if py_eq x y then list_ge xs ys else py_ge x y)"

text \<open>
  \<open>len(data)\<close> followed by \<open>for row in data\<close>: a list gives its elements, a dict its
  keys, a str its characters; \<open>len\<close> of anything else raises \<open>TypeError\<close>.
\<close>

definition py_iter :: "json \<Rightarrow> error + json list" where
  "py_iter data =
     (case data of
        JList rows \<Rightarrow> Inr rows
      | JObj kvs \<Rightarrow> Inr (map (\<lambda>kv. JStr (fst kv)) kvs)
      | JStr s \<Rightarrow> Inr (map (\<lambda>c. JStr [c]) s)
      | _ \<Rightarrow> Inl TypeError)"

section \<open>Entity transform\<close>

text \<open>
  \<open>transform_dict\<close>: the loop over \<open>d.items()\<close> appends one dict per item to
  \<open>rtn\<close>. The dict display \<open>{key_key: k, value_key: v}\<close> stores \<open>key_key\<close> first
  and \<open>value_key\<close> second. With \<open>force_str\<close> the value becomes
  \<open>str(v).lower()\<close>.
\<close>

definition entry :: "string \<Rightarrow> string \<Rightarrow> string \<Rightarrow> json \<Rightarrow> json" where
  "entry key_key value_key k v = JObj (AList.update value_key v [(key_key, JStr k)])"

definition rendered :: "bool \<Rightarrow> json \<Rightarrow> json" where
  "rendered force_str v = (if force_str then JStr (lower (py_str v)) else v)"

fun transform_loop ::
  "(string \<times> json) list \<Rightarrow> string \<Rightarrow> string \<Rightarrow> bool \<Rightarrow> json list \<Rightarrow> json list" where
  "transform_loop [] key_key value_key force_str rtn = rtn"
| "transform_loop ((k, v) # items) key_key value_key force_str rtn =
     transform_loop items key_key value_key force_str
       (rtn @ [entry key_key value_key k (rendered force_str v)])"

definition transform_dict :: "(string \<times> json) list \<Rightarrow> string \<Rightarrow> string \<Rightarrow> bool \<Rightarrow> json list" where
  "transform_dict d key_key value_key force_str = transform_loop d key_key value_key force_str []"

section \<open>Watermark store\<close>

text \<open>
  \<open>CONFIG\<close> and \<open>STATE\<close> are the two module-level dicts. Of \<open>CONFIG\<close> the
  model keeps what decides the course of a sync: \<open>domain\<close>, \<open>start_date\<close>, and
  the names of the streams whose entry in \<open>streams\<close> has \<open>selected\<close> true
  (\<open>api_key\<close> and \<open>user_agent\<close> only go into the headers of a request).
  \<open>STATE\<close> maps a bookmark namespace to the value stored for it.
\<close>

record config =
  domain :: string
  start_date :: string
  selected_streams :: "string list"

type_synonym state = "(string \<times> json) list"

definition get_start :: "config \<Rightarrow> state \<Rightarrow> string \<Rightarrow> json" where
  "get_start CONFIG STATE entity =
     (case map_of STATE entity of
        None \<Rightarrow>
          (if entity \<in> set [''contacts'', ''companies'', ''agents'']
           then JStr ''1970-01-01T00:00:00Z''
           else JStr (start_date CONFIG))
      | Some v \<Rightarrow> v)"

section \<open>Request executor\<close>

text \<open>
  What a run does that is visible from outside, in order: the requests sent, the waits,
  and the calls to the record sink. \<open>UpdateState\<close> marks a call of
  \<open>utils.update_state\<close>; it is no output, it is kept in the trace to place the
  advance of a watermark between the outputs around it. Log lines and the
  \<open>time_extracted\<close> stamp of a record are left out.
\<close>

datatype event =
    Send string "(string \<times> json) list"
  | Sleep int
  | Backoff nat
  | WriteSchema string
  | WriteRecord string json
  | UpdateState string json
  | WriteState state

text \<open>
  One \<open>session.send\<close> either raises (no response: a connection error, a timeout) or
  returns a response. Of a response the code reads the status, the \<open>Retry-After\<close>
  header (absent, an integer, or text that \<open>int\<close> rejects) and the JSON body.
\<close>

datatype retry_after_header = NoRetryAfter | RetryAfter int | RetryAfterMalformed

record response =
  status_code :: nat
  retry_after :: retry_after_header
  content :: json

datatype outcome = ConnectionFailure | Reply response

text \<open>
  The arguments of \<open>backoff.on_exception\<close>: the exception class
  \<open>RequestException\<close> (\<open>HTTPError\<close> is one), \<open>giveup\<close>, \<open>max_tries=5\<close> and
  the wait generator \<open>backoff.expo\<close> with \<open>factor=2\<close>, whose \<open>n\<close>-th value is
  \<open>2 * 2 ** n\<close>. \<open>Backoff\<close> records that value; the jitter the library applies to it
  and the pause of \<open>utils.ratelimit\<close> are time only and are not modelled.
\<close>

fun giveup :: "error \<Rightarrow> bool" where
  "giveup (HTTPError status body) = (400 \<le> status \<and> status < 500)"
| "giveup _ = False"

fun is_request_exception :: "error \<Rightarrow> bool" where
  "is_request_exception (HTTPError status body) = True"
| "is_request_exception RequestException = True"
| "is_request_exception _ = False"

definition max_tries :: nat where
  "max_tries = 5"

definition expo :: "nat \<Rightarrow> nat" where
  "expo n = 2 * 2 ^ n"

text \<open>
  \<open>request\<close> as decorated. The server's answers to the successive sends are a script;
  when the script has no answer left the result is \<open>None\<close>. The inner \<open>case\<close> is the
  body of \<open>request\<close>: a negative or unreadable \<open>Retry-After\<close> raises
  \<open>ValueError\<close> (from \<open>time.sleep\<close> or \<open>int\<close>); otherwise the header makes the
  body sleep and call \<open>request\<close> again, which is the decorated function and so starts
  with a count of its own; \<open>raise_for_status\<close> raises for a status from 400 to 599.
  The outer \<open>case\<close> is the decorator: it counts the tries of this call and retries a
  \<open>RequestException\<close> unless \<open>giveup\<close> holds or the count has reached
  \<open>max_tries\<close>.
\<close>

fun request_loop ::
  "nat \<Rightarrow> nat \<Rightarrow> string \<Rightarrow> (string \<times> json) list \<Rightarrow> outcome list
   \<Rightarrow> ((error + response) \<times> outcome list \<times> event list) option" where
  "request_loop 0 tries url params script = None"
| "request_loop (Suc fuel) tries url params script =
     (case script of
        [] \<Rightarrow> None
      | oc # rest \<Rightarrow>
          (case
             (case oc of
                ConnectionFailure \<Rightarrow> Some (Inl RequestException, rest, [Send url params])
              | Reply resp \<Rightarrow>
                  (case retry_after resp of
                     RetryAfterMalformed \<Rightarrow> Some (Inl ValueError, rest, [Send url params])
                   | RetryAfter s \<Rightarrow>
                       if s < 0 then Some (Inl ValueError, rest, [Send url params])
                       else
                         (case request_loop fuel 1 url params rest of
                            None \<Rightarrow> None
                          | Some (r, rest', ev) \<Rightarrow>
                              Some (r, rest', Send url params # Sleep s # ev))
                   | NoRetryAfter \<Rightarrow>
                       if 400 \<le> status_code resp \<and> status_code resp < 600
                       then Some (Inl (HTTPError (status_code resp) (content resp)), rest,
                                  [Send url params])
                       else Some (Inr resp, rest, [Send url params])))
           of
             None \<Rightarrow> None
           | Some (Inr resp, rest', ev) \<Rightarrow> Some (Inr resp, rest', ev)
           | Some (Inl e, rest', ev) \<Rightarrow>
               if is_request_exception e \<and> \<not> (giveup e \<or> tries = max_tries)
               then
                 (case request_loop fuel (tries + 1) url params rest' of
                    None \<Rightarrow> None
                  | Some (r, rest'', ev') \<Rightarrow>
                      Some (r, rest'', ev @ Backoff (expo (tries - 1)) # ev'))
               else Some (Inl e, rest', ev)))"

text \<open>Every call of the loop uses up an answer, so the length of the script is fuel enough.\<close>

definition request ::
  "string \<Rightarrow> (string \<times> json) list \<Rightarrow> outcome list \<Rightarrow> ((error + response) \<times> event list) option" where
  "request url params script =
     map_option (\<lambda>(r, rest, ev). (r, ev)) (request_loop (length script) 1 url params script)"

section \<open>Paginator\<close>

text \<open>
  The server: for each request, the answers to the successive sends of it. A piece of
  the sync either runs to its end or raises; in both cases it leaves a state and the
  events it produced. \<open>None\<close> stands for a run that has no result: the script or the
  fuel of a page loop ran out.
\<close>

type_synonym server = "string \<Rightarrow> (string \<times> json) list \<Rightarrow> outcome list"

type_synonym 's run = "(error option \<times> 's \<times> event list) option"

definition raise :: "error \<Rightarrow> 's \<Rightarrow> 's run" where
  "raise e s = Some (Some e, s, [])"

definition emit :: "event list \<Rightarrow> 's \<Rightarrow> 's run" where
  "emit ev s = Some (None, s, ev)"

text \<open>\<open>seq m f\<close>: statement \<open>m\<close>, then, unless it raised, statement \<open>f\<close>.\<close>

definition seq :: "'s run \<Rightarrow> ('s \<Rightarrow> 's run) \<Rightarrow> 's run" where
  "seq m f =
     (case m of
        None \<Rightarrow> None
      | Some (Some e, s, ev) \<Rightarrow> Some (Some e, s, ev)
      | Some (None, s, ev) \<Rightarrow>
          (case f s of None \<Rightarrow> None | Some (r, s', ev') \<Rightarrow> Some (r, s', ev @ ev')))"

text \<open>
  \<open>gen_request\<close> is a generator, and each of its callers is a \<open>for\<close> loop that
  runs to the end of it: the loop body runs on a row as soon as the row is yielded, before
  the next page is asked for. So the model takes the loop body as an argument.
  \<open>for_rows\<close> is \<open>for row in data: yield row\<close>; \<open>gen_pages\<close> is the
  \<open>while True\<close> loop, one page per unit of fuel.
\<close>

fun for_rows :: "(json \<Rightarrow> 's \<Rightarrow> 's run) \<Rightarrow> json list \<Rightarrow> 's \<Rightarrow> 's run" where
  "for_rows body [] s = emit [] s"
| "for_rows body (row # rows) s = seq (body row s) (for_rows body rows)"

definition PER_PAGE :: nat where
  "PER_PAGE = 100"

fun gen_pages ::
  "nat \<Rightarrow> server \<Rightarrow> string \<Rightarrow> (string \<times> json) list \<Rightarrow> nat \<Rightarrow> (json \<Rightarrow> 's \<Rightarrow> 's run) \<Rightarrow> 's
   \<Rightarrow> 's run" where
  "gen_pages 0 server url params page body s = None"
| "gen_pages (Suc fuel) server url params page body s =
     (let params' = AList.update ''page'' (JInt (int page)) params in
      case request url params' (server url params') of
        None \<Rightarrow> None
      | Some (Inl e, ev) \<Rightarrow> Some (Some e, s, ev)
      | Some (Inr resp, ev) \<Rightarrow>
          (case py_iter (content resp) of
             Inl e \<Rightarrow> Some (Some e, s, ev)
           | Inr data \<Rightarrow>
               seq (seq (emit ev s) (for_rows body data))
                 (\<lambda>s'. if length data = PER_PAGE
                       then gen_pages fuel server url params' (page + 1) body s'
                       else emit [] s')))"

definition gen_request ::
  "nat \<Rightarrow> server \<Rightarrow> string \<Rightarrow> (string \<times> json) list \<Rightarrow> (json \<Rightarrow> 's \<Rightarrow> 's run) \<Rightarrow> 's \<Rightarrow> 's run" where
  "gen_request fuel server url params body s =
     gen_pages fuel server url (AList.update ''per_page'' (JInt (int PER_PAGE)) params) 1 body s"

section \<open>Sync orchestrator\<close>

text \<open>
  Modelled from the spec: \<open>utils.update_state\<close> is not among the source files. The
  spec's \<open>advance(namespace, timestamp)\<close> "unconditionally overwrites the stored
  watermark for that namespace with the given value".
\<close>

definition update_state :: "state \<Rightarrow> string \<Rightarrow> json \<Rightarrow> state" where
  "update_state STATE entity v = AList.update entity v STATE"

definition BASE_URL :: "string \<Rightarrow> string" where
  "BASE_URL d = ''https://'' @ d @ ''.freshdesk.com''"

definition endpoints :: "(string \<times> string) list" where
  "endpoints =
     [(''tickets'', ''/api/v2/tickets''),
      (''agents'', ''/api/v2/agents''),
      (''roles'', ''/api/v2/roles''),
      (''groups'', ''/api/v2/groups''),
      (''companies'', ''/api/v2/companies''),
      (''contacts'', ''/api/v2/contacts'')]"

text \<open>
  \<open>get_url(endpoint)\<close> for the endpoints without a placeholder, and
  \<open>get_url("sub_ticket", id=..., entity=...)\<close>, where \<open>format\<close> writes the id with
  \<open>str\<close>.
\<close>

definition get_url :: "config \<Rightarrow> string \<Rightarrow> error + string" where
  "get_url CONFIG endpoint =
     (case map_of endpoints endpoint of
        None \<Rightarrow> Inl (KeyError endpoint)
      | Some path \<Rightarrow> Inr (BASE_URL (domain CONFIG) @ path))"

definition get_url_sub_ticket :: "config \<Rightarrow> json \<Rightarrow> string \<Rightarrow> string" where
  "get_url_sub_ticket CONFIG ident entity =
     BASE_URL (domain CONFIG) @ ''/api/v2/tickets/'' @ py_str ident @ ''/'' @ entity"

subsection \<open>Flat sync\<close>

text \<open>The body of the loop of \<open>sync_time_filtered\<close>.\<close>

definition time_filtered_row :: "string \<Rightarrow> json \<Rightarrow> json \<Rightarrow> state \<Rightarrow> state run" where
  "time_filtered_row entity start row STATE =
     (case py_getitem row ''updated_at'' of
        Inl e \<Rightarrow> raise e STATE
      | Inr bookmark \<Rightarrow>
          (case py_ge bookmark start of
             Inl e \<Rightarrow> raise e STATE
           | Inr False \<Rightarrow> emit [] STATE
           | Inr True \<Rightarrow>
               (case row of
                  JObj kvs \<Rightarrow>
                    (case
                       (case map_of kvs ''custom_fields'' of
                          None \<Rightarrow> Inr kvs
                        | Some cf \<Rightarrow>
                            (case py_items cf of
                               Inl e \<Rightarrow> Inl e
                             | Inr d \<Rightarrow>
                                 Inr (AList.update ''custom_fields''
                                        (JList (transform_dict d ''name'' ''value'' True)) kvs)))
                     of
                       Inl e \<Rightarrow> raise e STATE
                     | Inr kvs' \<Rightarrow>
                         emit [UpdateState entity bookmark, WriteRecord entity (JObj kvs')]
                           (update_state STATE entity bookmark))
                | _ \<Rightarrow> raise TypeError STATE)))"

definition sync_time_filtered :: "nat \<Rightarrow> server \<Rightarrow> config \<Rightarrow> string \<Rightarrow> state \<Rightarrow> state run" where
  "sync_time_filtered fuel server CONFIG entity STATE =
     seq (emit [WriteSchema entity] STATE)
       (\<lambda>STATE.
          let start = get_start CONFIG STATE entity in
          case get_url CONFIG entity of
            Inl e \<Rightarrow> raise e STATE
          | Inr url \<Rightarrow>
              seq (gen_request fuel server url [] (time_filtered_row entity start) STATE)
                (\<lambda>STATE. emit [WriteState STATE] STATE))"

subsection \<open>Hierarchical sync\<close>

text \<open>
  The loop bodies over the sub-resources of a ticket: \<open>conversations\<close> and
  \<open>time_entries\<close> write the row when its bookmark is not below \<open>start\<close>;
  \<open>satisfaction_ratings\<close> rewrites \<open>ratings\<close> first.
\<close>

definition sub_row :: "string \<Rightarrow> json \<Rightarrow> json \<Rightarrow> state \<Rightarrow> state run" where
  "sub_row stream start subrow STATE =
     (case py_getitem subrow ''updated_at'' of
        Inl e \<Rightarrow> raise e STATE
      | Inr bookmark \<Rightarrow>
          (case py_ge bookmark start of
             Inl e \<Rightarrow> raise e STATE
           | Inr fresh \<Rightarrow> emit (if fresh then [WriteRecord stream subrow] else []) STATE))"

definition ratings_row :: "json \<Rightarrow> json \<Rightarrow> state \<Rightarrow> state run" where
  "ratings_row start subrow STATE =
     (case py_getitem subrow ''ratings'' of
        Inl e \<Rightarrow> raise e STATE
      | Inr ratings \<Rightarrow>
          (case py_items ratings of
             Inl e \<Rightarrow> raise e STATE
           | Inr d \<Rightarrow>
               (case subrow of
                  JObj kvs \<Rightarrow>
                    sub_row ''satisfaction_ratings'' start
                      (JObj (AList.update ''ratings''
                               (JList (transform_dict d ''question'' ''value'' False)) kvs))
                      STATE
                | _ \<Rightarrow> raise TypeError STATE)))"

text \<open>
  The loop over one sub-resource of a ticket, \<open>for subrow in gen_request(get_url(
  "sub_ticket", id=row['id'], entity=...))\<close>, and the \<open>try\<close> around it:
  \<open>except HTTPError as e\<close> logs and drops the statuses listed and raises everything
  else again; an exception that is no \<open>HTTPError\<close> passes through.
\<close>

definition sub_request ::
  "nat \<Rightarrow> server \<Rightarrow> config \<Rightarrow> json \<Rightarrow> string \<Rightarrow> (json \<Rightarrow> state \<Rightarrow> state run) \<Rightarrow> state
   \<Rightarrow> state run" where
  "sub_request fuel server CONFIG ident entity body STATE =
     gen_request fuel server (get_url_sub_ticket CONFIG ident entity) [] body STATE"

definition except_status :: "nat list \<Rightarrow> 's run \<Rightarrow> 's run" where
  "except_status recovered r =
     (case r of
        Some (Some (HTTPError status body), s, ev) \<Rightarrow>
          if status \<in> set recovered then Some (None, s, ev) else r
      | _ \<Rightarrow> r)"

definition sync_sub ::
  "nat \<Rightarrow> server \<Rightarrow> config \<Rightarrow> json \<Rightarrow> string \<Rightarrow> nat list \<Rightarrow> (json \<Rightarrow> state \<Rightarrow> state run)
   \<Rightarrow> state \<Rightarrow> state run" where
  "sync_sub fuel server CONFIG ident entity recovered body STATE =
     except_status recovered (sub_request fuel server CONFIG ident entity body STATE)"

text \<open>The body of the loop of \<open>sync_tickets_by_filter\<close>, one ticket.\<close>

definition ticket_row ::
  "nat \<Rightarrow> server \<Rightarrow> config \<Rightarrow> string \<Rightarrow> json \<Rightarrow> json \<Rightarrow> state \<Rightarrow> state run" where
  "ticket_row fuel server CONFIG state_entity start row STATE =
     (case py_getitem row ''id'' of
        Inl e \<Rightarrow> raise e STATE
      | Inr ident \<Rightarrow>
          (case row of
             JObj kvs0 \<Rightarrow>
               (let kvs = AList.delete ''attachments'' kvs0 in
                case map_of kvs ''custom_fields'' of
                  None \<Rightarrow> raise (KeyError ''custom_fields'') STATE
                | Some cf \<Rightarrow>
                    (case py_items cf of
                       Inl e \<Rightarrow> raise e STATE
                     | Inr d \<Rightarrow>
                         (let kvs' = AList.update ''custom_fields''
                                       (JList (transform_dict d ''name'' ''value'' True)) kvs
                          in
                          seq (sync_sub fuel server CONFIG ident ''conversations'' [403]
                                 (sub_row ''conversations'' start) STATE)
                         (\<lambda>STATE.
                          seq (sync_sub fuel server CONFIG ident ''satisfaction_ratings'' [403]
                                 (ratings_row start) STATE)
                         (\<lambda>STATE.
                          seq (sync_sub fuel server CONFIG ident ''time_entries'' [403, 404]
                                 (sub_row ''time_entries'' start) STATE)
                         (\<lambda>STATE.
                          case map_of kvs' ''updated_at'' of
                            None \<Rightarrow> raise (KeyError ''updated_at'') STATE
                          | Some bookmark \<Rightarrow>
                              (let STATE' = update_state STATE state_entity bookmark in
                               emit [UpdateState state_entity bookmark,
                                     WriteRecord ''tickets'' (JObj kvs'),
                                     WriteState STATE'] STATE')))))))
           | _ \<Rightarrow> raise TypeError STATE))"

text \<open>
  \<open>predefined_filter\<close> is \<open>None\<close> or a str; \<open>if predefined_filter\<close> is false for
  \<open>None\<close> and for the empty str. \<open>state_entity\<close> is the bookmark namespace of the
  pass, \<open>ticket_params\<close> the dict \<open>params\<close> as the pass hands it to
  \<open>gen_request\<close>.
\<close>

definition state_entity :: "string option \<Rightarrow> string" where
  "state_entity predefined_filter =
     (case predefined_filter of
        None \<Rightarrow> ''tickets''
      | Some f \<Rightarrow> if f \<noteq> [] then ''tickets'' @ ''_'' @ f else ''tickets'')"

definition ticket_params :: "json \<Rightarrow> string option \<Rightarrow> (string \<times> json) list" where
  "ticket_params start predefined_filter =
     (let params = [(''updated_since'', start),
                    (''order_by'', JStr ''updated_at''),
                    (''order_type'', JStr ''asc''),
                    (''include'', JStr ''requester,company,stats,description'')]
      in case predefined_filter of
           None \<Rightarrow> params
         | Some f \<Rightarrow> if f \<noteq> [] then AList.update ''filter'' (JStr f) params else params)"

definition sync_tickets_by_filter ::
  "nat \<Rightarrow> server \<Rightarrow> config \<Rightarrow> string option \<Rightarrow> state \<Rightarrow> state run" where
  "sync_tickets_by_filter fuel server CONFIG predefined_filter STATE =
     (let start = get_start CONFIG STATE (state_entity predefined_filter) in
      case get_url CONFIG ''tickets'' of
        Inl e \<Rightarrow> raise e STATE
      | Inr url \<Rightarrow>
          gen_request fuel server url (ticket_params start predefined_filter)
            (ticket_row fuel server CONFIG (state_entity predefined_filter) start) STATE)"

definition sync_tickets :: "nat \<Rightarrow> server \<Rightarrow> config \<Rightarrow> state \<Rightarrow> state run" where
  "sync_tickets fuel server CONFIG STATE =
     seq (emit [WriteSchema ''tickets'', WriteSchema ''conversations'',
                WriteSchema ''satisfaction_ratings'', WriteSchema ''time_entries''] STATE)
    (\<lambda>STATE.
     seq (sync_tickets_by_filter fuel server CONFIG None STATE)
    (\<lambda>STATE.
     seq (sync_tickets_by_filter fuel server CONFIG (Some ''deleted'') STATE)
    (\<lambda>STATE.
     sync_tickets_by_filter fuel server CONFIG (Some ''spam'') STATE)))"

subsection \<open>Run driver\<close>

text \<open>
  \<open>do_sync\<close>: the selected streams in the fixed order; an \<open>HTTPError\<close> from any of
  them ends the process with \<open>sys.exit(1)\<close>, any other exception passes through.
\<close>

definition when_selected :: "config \<Rightarrow> string \<Rightarrow> (state \<Rightarrow> state run) \<Rightarrow> state \<Rightarrow> state run" where
  "when_selected CONFIG stream sync STATE =
     (if stream \<in> set (selected_streams CONFIG) then sync STATE else emit [] STATE)"

definition do_sync :: "nat \<Rightarrow> server \<Rightarrow> config \<Rightarrow> state \<Rightarrow> state run" where
  "do_sync fuel server CONFIG STATE =
     (case
        seq (when_selected CONFIG ''tickets'' (sync_tickets fuel server CONFIG) STATE)
       (\<lambda>STATE.
        seq (when_selected CONFIG ''contacts''
               (sync_time_filtered fuel server CONFIG ''contacts'') STATE)
       (\<lambda>STATE.
        seq (when_selected CONFIG ''agents''
               (sync_time_filtered fuel server CONFIG ''agents'') STATE)
       (\<lambda>STATE.
        seq (when_selected CONFIG ''roles''
               (sync_time_filtered fuel server CONFIG ''roles'') STATE)
       (\<lambda>STATE.
        seq (when_selected CONFIG ''groups''
               (sync_time_filtered fuel server CONFIG ''groups'') STATE)
       (\<lambda>STATE.
        when_selected CONFIG ''companies''
          (sync_time_filtered fuel server CONFIG ''companies'') STATE)))))
      of
        Some (Some (HTTPError status body), STATE', ev) \<Rightarrow> Some (Some (SystemExit 1), STATE', ev)
      | r \<Rightarrow> r)"

section \<open>Vocabulary of the properties\<close>


fun raised :: "outcome \<Rightarrow> error" where
  "raised ConnectionFailure = RequestException"
| "raised (Reply r) = HTTPError (status_code r) (content r)"


text \<open>
  The loop body that only collects what \<open>gen_request\<close> yields; a response with
  status 200 and a list of rows as body; the parameters of the request for page \<open>n\<close>;
  and a server that serves given pages by their number.
\<close>

definition yield_row :: "json \<Rightarrow> json list \<Rightarrow> json list run" where
  "yield_row row yielded = emit [] (yielded @ [row])"

definition page_of :: "json list \<Rightarrow> outcome list" where
  "page_of rows = [Reply \<lparr>status_code = 200, retry_after = NoRetryAfter, content = JList rows\<rparr>]"

definition page_params :: "(string \<times> json) list \<Rightarrow> nat \<Rightarrow> (string \<times> json) list" where
  "page_params params n =
     AList.update ''page'' (JInt (int n)) (AList.update ''per_page'' (JInt 100) params)"

definition serve_pages :: "json list list \<Rightarrow> server" where
  "serve_pages pages url params =
     (case map_of params ''page'' of
        Some (JInt p) \<Rightarrow> if 1 \<le> p \<and> nat p \<le> length pages then page_of (pages ! (nat p - 1)) else page_of []
      | _ \<Rightarrow> [])"

text \<open>250 records, served as pages of 100, 100 and 50.\<close>

definition records_250 :: "json list" where
  "records_250 = map (\<lambda>i. JObj [(''id'', JInt (int i))]) [0..<250]"

definition pages_250 :: "json list list" where
  "pages_250 = [take 100 records_250, take 100 (drop 100 records_250), drop 200 records_250]"

text \<open>
  Reading a trace. \<open>is_transport\<close>: the events of the request executor.
  \<open>emitted_before_advance\<close>: every advance of a watermark stores the bookmark of a
  record written earlier in the trace. \<open>advance_then_emit ns main\<close>: every advance is
  of namespace \<open>ns\<close> and is directly followed by the write, to stream \<open>main\<close>, of a
  record with that bookmark, and no record of \<open>main\<close> is written without its advance
  directly before it. \<open>fresh_event streams start\<close>: a record written to one of
  \<open>streams\<close> has a bookmark not below \<open>start\<close>.
\<close>

fun is_transport :: "event \<Rightarrow> bool" where
  "is_transport (Send url params) = True"
| "is_transport (Sleep s) = True"
| "is_transport (Backoff d) = True"
| "is_transport _ = False"

fun emitted_before_advance :: "json list \<Rightarrow> event list \<Rightarrow> bool" where
  "emitted_before_advance seen [] = True"
| "emitted_before_advance seen (WriteRecord stream row # ev) =
     emitted_before_advance (row # seen) ev"
| "emitted_before_advance seen (UpdateState ns v # ev) =
     (list_ex (\<lambda>row. py_getitem row ''updated_at'' = Inr v) seen
      \<and> emitted_before_advance seen ev)"
| "emitted_before_advance seen (e # ev) = emitted_before_advance seen ev"

fun advance_then_emit :: "string \<Rightarrow> string \<Rightarrow> event list \<Rightarrow> bool" where
  "advance_then_emit ns main [] = True"
| "advance_then_emit ns main (UpdateState ns' v # WriteRecord stream row # ev) =
     (ns' = ns \<and> stream = main \<and> py_getitem row ''updated_at'' = Inr v
      \<and> advance_then_emit ns main ev)"
| "advance_then_emit ns main (UpdateState ns' v # ev) = False"
| "advance_then_emit ns main (WriteRecord stream row # ev) =
     (stream \<noteq> main \<and> advance_then_emit ns main ev)"
| "advance_then_emit ns main (e # ev) = advance_then_emit ns main ev"

fun fresh_event :: "string list \<Rightarrow> json \<Rightarrow> event \<Rightarrow> bool" where
  "fresh_event streams start (WriteRecord stream row) =
     (stream \<in> set streams \<longrightarrow>
        (case py_getitem row ''updated_at'' of
           Inl e \<Rightarrow> False
         | Inr bookmark \<Rightarrow> py_ge bookmark start = Inr True))"
| "fresh_event streams start e = True"

definition sub_streams :: "string list" where
  "sub_streams = [''conversations'', ''satisfaction_ratings'', ''time_entries'']"

text \<open>
  An account to run the sync on: one role; one ticket, number 7, last updated before the
  configured start date, with an attachment list, a custom field, one conversation, no
  access to its satisfaction ratings and no time entries; no deleted or spam tickets.
  The server also knows the tickets 9 and 10 in part, and answers 400 to everything
  else.
\<close>

definition acme :: config where
  "acme = \<lparr>domain = ''acme'', start_date = ''2020-01-01T00:00:00Z'',
           selected_streams = [''tickets'', ''roles'']\<rparr>"

definition role_1 :: json where
  "role_1 = JObj [(''id'', JInt 1), (''updated_at'', JStr ''2021-01-01T00:00:00Z'')]"

definition ticket_7 :: json where
  "ticket_7 = JObj [(''id'', JInt 7), (''attachments'', JList []),
                    (''custom_fields'', JObj [(''cf_vip'', JBool False)]),
                    (''updated_at'', JStr ''2019-06-01T00:00:00Z'')]"

definition conversation_70 :: json where
  "conversation_70 = JObj [(''id'', JInt 70), (''updated_at'', JStr ''2021-03-01T00:00:00Z'')]"

definition refuse :: "nat \<Rightarrow> outcome list" where
  "refuse status =
     [Reply \<lparr>status_code = status, retry_after = NoRetryAfter, content = JNull\<rparr>]"

definition acme_server :: server where
  "acme_server url params =
     (if url = ''https://acme.freshdesk.com/api/v2/roles'' then page_of [role_1]
      else if url = ''https://acme.freshdesk.com/api/v2/tickets''
        then (if map_of params ''filter'' = None then page_of [ticket_7] else page_of [])
      else if url = ''https://acme.freshdesk.com/api/v2/tickets/7/conversations''
        then page_of [conversation_70]
      else if url = ''https://acme.freshdesk.com/api/v2/tickets/7/satisfaction_ratings''
        then refuse 403
      else if url = ''https://acme.freshdesk.com/api/v2/tickets/7/time_entries''
        then refuse 404
      else if url = ''https://acme.freshdesk.com/api/v2/tickets/9/conversations''
        then page_of []
      else if url = ''https://acme.freshdesk.com/api/v2/tickets/10/conversations''
        then page_of []
      else if url = ''https://acme.freshdesk.com/api/v2/tickets/10/satisfaction_ratings''
        then page_of []
      else refuse 400)"

text \<open>The state and the traces the runs over that account produce.\<close>

definition roles_state :: state where
  "roles_state = [(''roles'', JStr ''2021-01-01T00:00:00Z'')]"

definition roles_trace :: "event list" where
  "roles_trace =
     [WriteSchema ''roles'',
      Send ''https://acme.freshdesk.com/api/v2/roles'' [(''per_page'', JInt 100), (''page'', JInt 1)],
      UpdateState ''roles'' (JStr ''2021-01-01T00:00:00Z''),
      WriteRecord ''roles'' role_1,
      WriteState [(''roles'', JStr ''2021-01-01T00:00:00Z'')]]"

definition ticket_7_written :: json where
  "ticket_7_written =
     JObj [(''id'', JInt 7),
           (''custom_fields'', JList [JObj [(''name'', JStr ''cf_vip''), (''value'', JStr ''false'')]]),
           (''updated_at'', JStr ''2019-06-01T00:00:00Z'')]"

definition tickets_trace :: "event list" where
  "tickets_trace =
     [Send ''https://acme.freshdesk.com/api/v2/tickets''
        [(''updated_since'', JStr ''2020-01-01T00:00:00Z''), (''order_by'', JStr ''updated_at''),
         (''order_type'', JStr ''asc''), (''include'', JStr ''requester,company,stats,description''),
         (''per_page'', JInt 100), (''page'', JInt 1)],
      Send ''https://acme.freshdesk.com/api/v2/tickets/7/conversations''
        [(''per_page'', JInt 100), (''page'', JInt 1)],
      WriteRecord ''conversations'' conversation_70,
      Send ''https://acme.freshdesk.com/api/v2/tickets/7/satisfaction_ratings''
        [(''per_page'', JInt 100), (''page'', JInt 1)],
      Send ''https://acme.freshdesk.com/api/v2/tickets/7/time_entries''
        [(''per_page'', JInt 100), (''page'', JInt 1)],
      UpdateState ''tickets'' (JStr ''2019-06-01T00:00:00Z''),
      WriteRecord ''tickets'' ticket_7_written,
      WriteState [(''tickets'', JStr ''2019-06-01T00:00:00Z'')]]"

text \<open>
  The ticket record as \<open>sync_tickets_by_filter\<close> writes it: without
  \<open>attachments\<close>, the custom fields as a list. \<open>recovered_by statuses\<close>: the way a
  sub-resource loop ended is one its \<open>except\<close> clause recovers from. Then more of
  the account: a ticket without custom fields, tickets with nothing but the fields the
  sync reads, a server whose ticket list holds ticket 8, the parameters of a first
  page, the configured start date as a value, and a server that refuses the second
  page of everything.
\<close>

definition written_ticket :: "(string \<times> json) list \<Rightarrow> (string \<times> json) list \<Rightarrow> json" where
  "written_ticket kvs d =
     JObj (AList.update ''custom_fields'' (JList (transform_dict d ''name'' ''value'' True))
             (AList.delete ''attachments'' kvs))"

fun recovered_by :: "nat list \<Rightarrow> error option \<Rightarrow> bool" where
  "recovered_by statuses None = True"
| "recovered_by statuses (Some (HTTPError status body)) = (status \<in> set statuses)"
| "recovered_by statuses (Some e) = False"


definition plain_ticket :: "int \<Rightarrow> (string \<times> json) list" where
  "plain_ticket n =
     [(''id'', JInt n), (''custom_fields'', JObj []), (''updated_at'', JStr ''2021-02-01T00:00:00Z'')]"

definition acme_server_8 :: server where
  "acme_server_8 url params =
     (if url = ''https://acme.freshdesk.com/api/v2/tickets'' then page_of [JObj (plain_ticket 8)]
      else acme_server url params)"

definition first_page :: "(string \<times> json) list" where
  "first_page = [(''per_page'', JInt 100), (''page'', JInt 1)]"

definition acme_start :: json where
  "acme_start = JStr ''2020-01-01T00:00:00Z''"

definition busy_server :: server where
  "busy_server url params =
     (if map_of params ''page'' = Some (JInt 1) then page_of (replicate 100 conversation_70)
      else refuse 403)"

text \<open>
  The records written to a stream in the course of a run, in order; rows that have a
  bookmark not below \<open>start\<close>; a row of a flat entity, a ticket and a satisfaction
  rating as the sync writes them. Then a second role and the two list URLs of the
  account.
\<close>

definition written :: "string \<Rightarrow> event list \<Rightarrow> json list" where
  "written stream ev =
     concat (map (\<lambda>e. case e of WriteRecord stream' row \<Rightarrow> if stream' = stream then [row] else []
                         | _ \<Rightarrow> []) ev)"

definition is_fresh :: "json \<Rightarrow> json \<Rightarrow> bool" where
  "is_fresh start row =
     (case py_getitem row ''updated_at'' of Inl e \<Rightarrow> False | Inr b \<Rightarrow> py_ge b start = Inr True)"

definition flat_written :: "json \<Rightarrow> json" where
  "flat_written row =
     (case row of
        JObj kvs \<Rightarrow>
          (case map_of kvs ''custom_fields'' of
             Some (JObj d) \<Rightarrow>
               JObj (AList.update ''custom_fields''
                       (JList (transform_dict d ''name'' ''value'' True)) kvs)
           | _ \<Rightarrow> row)
      | _ \<Rightarrow> row)"

definition as_written :: "json \<Rightarrow> json" where
  "as_written row =
     (case row of
        JObj kvs \<Rightarrow>
          (case map_of kvs ''custom_fields'' of
             Some (JObj d) \<Rightarrow> written_ticket kvs d
           | _ \<Rightarrow> row)
      | _ \<Rightarrow> row)"

definition ratings_written :: "json \<Rightarrow> json" where
  "ratings_written row =
     (case row of
        JObj kvs \<Rightarrow>
          (case map_of kvs ''ratings'' of
             Some (JObj d) \<Rightarrow>
               JObj (AList.update ''ratings''
                       (JList (transform_dict d ''question'' ''value'' False)) kvs)
           | _ \<Rightarrow> row)
      | _ \<Rightarrow> row)"

definition role_2 :: json where
  "role_2 = JObj [(''id'', JInt 2), (''updated_at'', JStr ''2021-06-01T00:00:00Z'')]"

definition roles_url :: string where
  "roles_url = ''https://acme.freshdesk.com/api/v2/roles''"

definition tickets_url :: string where
  "tickets_url = ''https://acme.freshdesk.com/api/v2/tickets''"




text \<open>
  What a loop over \<open>rows\<close> has done when it ended or raised with \<open>r\<close>: it went
  through the first \<open>n\<close> rows without an exception and wrote to \<open>stream\<close> the
  record \<open>g row\<close> of each of them that satisfies \<open>p\<close>; it went through all rows if
  it ended; and if it did not, the body raised \<open>r\<close> on row \<open>n\<close>.
\<close>

definition consumed ::
  "(json \<Rightarrow> 's \<Rightarrow> 's run) \<Rightarrow> string \<Rightarrow> (json \<Rightarrow> bool) \<Rightarrow> (json \<Rightarrow> json) \<Rightarrow> json list
   \<Rightarrow> error option \<Rightarrow> event list \<Rightarrow> nat \<Rightarrow> bool" where
  "consumed body stream p g rows r ev n \<longleftrightarrow>
     n \<le> length rows
     \<and> written stream ev = map g (filter p (take n rows))
     \<and> (r = None \<longrightarrow> n = length rows)
     \<and> (\<forall>i<n. \<exists>s s' ev'. body (rows ! i) s = Some (None, s', ev'))
     \<and> (n < length rows \<longrightarrow> (\<exists>e s s' ev'. r = Some e \<and> body (rows ! n) s = Some (Some e, s', ev')))"

text \<open>
  A satisfaction rating of the account, and the parameters of the first page of a ticket
  pass that starts at the configured start date.
\<close>

definition rating_30 :: json where
  "rating_30 = JObj [(''id'', JInt 30), (''ratings'', JObj [(''default_question'', JInt 103)]),
                     (''updated_at'', JStr ''2021-04-01T00:00:00Z'')]"

definition tickets_first_page :: "(string \<times> json) list" where
  "tickets_first_page =
     [(''updated_since'', JStr ''2020-01-01T00:00:00Z''), (''order_by'', JStr ''updated_at''),
      (''order_type'', JStr ''asc''), (''include'', JStr ''requester,company,stats,description''),
      (''per_page'', JInt 100), (''page'', JInt 1)]"

section \<open>Properties of the entity transform and of the watermark store\<close>

lemma transform_loop_eq:
  "transform_loop d kk vk fs rtn =
     rtn @ map (\<lambda>kv. entry kk vk (fst kv) (rendered fs (snd kv))) d"
  by (induction d arbitrary: rtn) auto

lemma entry_lookup:
  "kk \<noteq> vk \<Longrightarrow>
     py_getitem (entry kk vk k v) kk = Inr (JStr k) \<and> py_getitem (entry kk vk k v) vk = Inr v"
  by (simp add: entry_def py_getitem_def)

text \<open>
  C7. For every input map \<open>d\<close>, \<open>transform_dict\<close> returns one entry per item of
  \<open>d\<close>, in the order of \<open>d\<close>, each the dict \<open>{key_key: k, value_key: v}\<close> of its
  item. When the two key names differ, as they do at every call in the source, reading
  \<open>key_key\<close> off the entries gives back the keys of \<open>d\<close> and reading \<open>value_key\<close>
  gives the values. With \<open>force_str\<close> every value is a str, and the booleans become
  \<open>true\<close> and \<open>false\<close>.
\<close>

theorem transform_dict_entries:
  "transform_dict d kk vk fs = map (\<lambda>kv. entry kk vk (fst kv) (rendered fs (snd kv))) d
   \<and> length (transform_dict d kk vk fs) = length d
   \<and> (kk \<noteq> vk \<longrightarrow>
        map (\<lambda>e. py_getitem e kk) (transform_dict d kk vk fs) = map (\<lambda>kv. Inr (JStr (fst kv))) d
      \<and> map (\<lambda>e. py_getitem e vk) (transform_dict d kk vk fs)
          = map (\<lambda>kv. Inr (rendered fs (snd kv))) d)
   \<and> (\<forall>v. rendered True v = JStr (lower (py_str v)))
   \<and> rendered True (JBool True) = JStr ''true''
   \<and> rendered True (JBool False) = JStr ''false''"
  by (simp add: transform_dict_def transform_loop_eq entry_lookup rendered_def lower_def
      py_str_def lower_char_def)

theorem transform_dict_entries_witness:
  "''name'' \<noteq> ''value''
   \<and> transform_dict [(''cf_color'', JBool True), (''cf_size'', JStr ''10'')] ''name'' ''value'' True
     = [JObj [(''name'', JStr ''cf_color''), (''value'', JStr ''true'')],
        JObj [(''name'', JStr ''cf_size''), (''value'', JStr ''10'')]]
   \<and> map (\<lambda>e. py_getitem e ''name'')
        (transform_dict [(''cf_color'', JBool True), (''cf_size'', JStr ''10'')]
           ''name'' ''value'' True)
     = [Inr (JStr ''cf_color''), Inr (JStr ''cf_size'')]"
  using transform_dict_entries
    [of "[(''cf_color'', JBool True), (''cf_size'', JStr ''10'')]" "''name''" "''value''" True]
  by (simp add: entry_def rendered_def lower_def py_str_def lower_char_def py_getitem_def)

text \<open>
  C8. \<open>get_start\<close> returns the stored watermark when the namespace is in \<open>STATE\<close>;
  otherwise the epoch for \<open>contacts\<close>, \<open>companies\<close> and \<open>agents\<close>, and the
  configured start date for every other entity.
\<close>

theorem get_start_default:
  "get_start CONFIG STATE entity =
     (case map_of STATE entity of
        Some v \<Rightarrow> v
      | None \<Rightarrow>
          if entity = ''contacts'' \<or> entity = ''companies'' \<or> entity = ''agents''
          then JStr ''1970-01-01T00:00:00Z''
          else JStr (start_date CONFIG))"
  by (simp add: get_start_def split: option.splits)

theorem get_start_default_witness:
  "get_start \<lparr>domain = ''acme'', start_date = ''2020-01-01T00:00:00Z'', selected_streams = []\<rparr>
     [(''roles'', JStr ''2021-05-05T00:00:00Z'')] ''roles'' = JStr ''2021-05-05T00:00:00Z''
   \<and> get_start \<lparr>domain = ''acme'', start_date = ''2020-01-01T00:00:00Z'', selected_streams = []\<rparr>
     [(''roles'', JStr ''2021-05-05T00:00:00Z'')] ''agents'' = JStr ''1970-01-01T00:00:00Z''
   \<and> get_start \<lparr>domain = ''acme'', start_date = ''2020-01-01T00:00:00Z'', selected_streams = []\<rparr>
     [(''roles'', JStr ''2021-05-05T00:00:00Z'')] ''groups'' = JStr ''2020-01-01T00:00:00Z''"
  using
    get_start_default [of "\<lparr>domain = ''acme'', start_date = ''2020-01-01T00:00:00Z'', selected_streams = []\<rparr>"
      "[(''roles'', JStr ''2021-05-05T00:00:00Z'')]" "''roles''"]
    get_start_default [of "\<lparr>domain = ''acme'', start_date = ''2020-01-01T00:00:00Z'', selected_streams = []\<rparr>"
      "[(''roles'', JStr ''2021-05-05T00:00:00Z'')]" "''agents''"]
    get_start_default [of "\<lparr>domain = ''acme'', start_date = ''2020-01-01T00:00:00Z'', selected_streams = []\<rparr>"
      "[(''roles'', JStr ''2021-05-05T00:00:00Z'')]" "''groups''"]
  by simp

section \<open>Properties of the request executor\<close>
















section \<open>Properties of the paginator\<close>

lemma request_page_of [simp]:
  "request url params (page_of rows)
     = Some (Inr \<lparr>status_code = 200, retry_after = NoRetryAfter, content = JList rows\<rparr>, [Send url params])"
  by (simp add: request_def page_of_def)

lemma seq_emit [simp]:
  "seq (emit ev s) f = (case f s of None \<Rightarrow> None | Some (r, s', ev') \<Rightarrow> Some (r, s', ev @ ev'))"
  by (simp add: seq_def emit_def)

lemma seq_Some_None [simp]:
  "seq (Some (None, s, ev)) f = (case f s of None \<Rightarrow> None | Some (r, s', ev') \<Rightarrow> Some (r, s', ev @ ev'))"
  by (simp add: seq_def)

lemma seq_Some_Some [simp]: "seq (Some (Some e, s, ev)) f = Some (Some e, s, ev)"
  by (simp add: seq_def)

lemma seq_None [simp]: "seq None f = None"
  by (simp add: seq_def)

lemma for_rows_yield_row: "for_rows yield_row rows acc = Some (None, acc @ rows, [])"
  by (induction rows arbitrary: acc) (simp_all add: emit_def yield_row_def)

lemma gen_pages_yield:
  assumes "pages \<noteq> []"
    and "\<forall>i<length pages. server url (AList.update ''page'' (JInt (int (p + i))) params) = page_of (pages ! i)"
    and "\<forall>i. Suc i < length pages \<longrightarrow> length (pages ! i) = PER_PAGE"
    and "length (last pages) \<noteq> PER_PAGE"
    and "length pages \<le> fuel"
  shows "gen_pages fuel server url params p yield_row acc =
     Some (None, acc @ concat pages,
           map (\<lambda>i. Send url (AList.update ''page'' (JInt (int (p + i))) params)) [0..<length pages])"
  using assms
proof (induction pages arbitrary: fuel p params acc)
  case Nil
  then show ?case by simp
next
  case (Cons pg pages)
  obtain f where f: "fuel = Suc f" using Cons.prems(5) by (cases fuel) auto
  have here: "server url (AList.update ''page'' (JInt (int p)) params) = page_of pg"
    using Cons.prems(2) by force
  show ?case
  proof (cases "pages = []")
    case True
    with Cons.prems(4) have "length pg \<noteq> PER_PAGE" by simp
    with True here f show ?thesis
      by (simp add: py_iter_def for_rows_yield_row emit_def)
  next
    case False
    have full: "length pg = PER_PAGE" using Cons.prems(3) False by (cases pages) force+
    have srv: "\<forall>i<length pages. server url (AList.update ''page'' (JInt (int (Suc p + i)))
                 (AList.update ''page'' (JInt (int p)) params)) = page_of (pages ! i)"
    proof (intro allI impI)
      fix i assume "i < length pages"
      then have "Suc i < length (pg # pages)" by simp
      from Cons.prems(2) [rule_format, OF this] show "server url
          (AList.update ''page'' (JInt (int (Suc p + i))) (AList.update ''page'' (JInt (int p)) params))
          = page_of (pages ! i)"
        by simp
    qed
    have lens: "\<forall>i. Suc i < length pages \<longrightarrow> length (pages ! i) = PER_PAGE"
      using Cons.prems(3) by auto
    have lst: "length (last pages) \<noteq> PER_PAGE" using Cons.prems(4) False by simp
    have fl: "length pages \<le> f" using Cons.prems(5) f by simp
    have IH: "gen_pages f server url (AList.update ''page'' (JInt (int p)) params) (Suc p) yield_row (acc @ pg) =
       Some (None, (acc @ pg) @ concat pages,
         map (\<lambda>i. Send url (AList.update ''page'' (JInt (int (Suc p + i))) (AList.update ''page'' (JInt (int p)) params)))
           [0..<length pages])"
      using Cons.IH [OF False srv lens lst fl] .
    have shift: "map (\<lambda>i. Send url (AList.update ''page'' (JInt (int (p + i))) params)) [0..<length (pg # pages)]
       = Send url (AList.update ''page'' (JInt (int p)) params)
         # map (\<lambda>i. Send url (AList.update ''page'' (JInt (int (Suc p + i))) params)) [0..<length pages]"
      by (simp add: upt_conv_Cons map_Suc_upt [symmetric] ac_simps del: upt_Suc)
    show ?thesis
      using here f full IH unfolding shift
      by (simp add: py_iter_def for_rows_yield_row)
  qed
qed

text \<open>
  C5. When the server holds the pages \<open>pages\<close>, all of 100 records but the last, which
  has fewer, \<open>gen_request\<close> sends one request per page, numbered from 1 and each with
  \<open>per_page = 100\<close>, stops after the short page, and yields the records of the pages one
  by one in the order received. For 250 records in pages of 100, 100 and 50 that is 250
  records and 3 requests.
\<close>

theorem gen_request_pages:
  assumes "pages \<noteq> []"
    and "\<forall>i<length pages. server url (page_params params (Suc i)) = page_of (pages ! i)"
    and "\<forall>i. Suc i < length pages \<longrightarrow> length (pages ! i) = 100"
    and "length (last pages) < 100"
    and "length pages \<le> fuel"
  shows "gen_request fuel server url params yield_row [] =
     Some (None, concat pages, map (\<lambda>i. Send url (page_params params (Suc i))) [0..<length pages])"
  using gen_pages_yield [of pages server url 1 "AList.update ''per_page'' (JInt 100) params" fuel "[]"] assms
  by (simp add: gen_request_def page_params_def PER_PAGE_def)

theorem gen_request_pages_witness:
  "map length pages_250 = [100, 100, 50]
   \<and> concat pages_250 = records_250 \<and> length records_250 = 250
   \<and> gen_request 3 (serve_pages pages_250) ''u'' [] yield_row [] =
     Some (None, records_250,
       [Send ''u'' [(''per_page'', JInt 100), (''page'', JInt 1)],
        Send ''u'' [(''per_page'', JInt 100), (''page'', JInt 2)],
        Send ''u'' [(''per_page'', JInt 100), (''page'', JInt 3)]])"
proof -
  have len: "length records_250 = 250"
    by (simp add: records_250_def del: upt_rec_numeral)
  have lens: "map length pages_250 = [100, 100, 50]"
    by (simp add: pages_250_def len)
  have cat: "concat pages_250 = records_250"
  proof -
    have "take 100 (drop 100 records_250) @ drop 100 (drop 100 records_250) = drop 100 records_250"
      by (rule append_take_drop_id)
    then have "take 100 (drop 100 records_250) @ drop 200 records_250 = drop 100 records_250"
      by simp
    then show ?thesis by (simp add: pages_250_def)
  qed
  have len3: "length pages_250 = Suc (Suc (Suc 0))" by (simp add: pages_250_def)
  have a1: "pages_250 \<noteq> []" by (simp add: pages_250_def)
  have a2: "\<forall>i<length pages_250.
              serve_pages pages_250 ''u'' (page_params [] (Suc i)) = page_of (pages_250 ! i)"
    unfolding len3 All_less_Suc by (simp add: serve_pages_def page_params_def len3 numeral_2_eq_2)
  have a3: "\<forall>i. Suc i < length pages_250 \<longrightarrow> length (pages_250 ! i) = 100"
    unfolding len3 by (simp add: pages_250_def len less_Suc_eq)
  have a4: "length (last pages_250) < 100" by (simp add: pages_250_def len)
  have a5: "length pages_250 \<le> 3" by (simp add: len3)
  from gen_request_pages [where pages = pages_250 and server = "serve_pages pages_250"
      and url = "''u''" and params = "[]" and fuel = 3, OF a1 a2 a3 a4 a5] lens cat len
  show ?thesis by (simp add: page_params_def len3 upt_conv_Cons del: upt_Suc)
qed

section \<open>Properties of the traces\<close>

lemma request_loop_transport:
  "request_loop fuel tries url params script = Some (r, rest, ev) \<Longrightarrow> list_all is_transport ev"
proof (induction fuel arbitrary: tries script r rest ev)
  case 0
  then show ?case by simp
next
  case (Suc fuel)
  then show ?case
    by (auto split: list.splits outcome.splits retry_after_header.splits if_splits option.splits sum.splits)
qed

lemma request_transport:
  "request url params script = Some (r, ev) \<Longrightarrow> list_all is_transport ev"
  by (auto simp: request_def dest: request_loop_transport)

lemma seq_cases:
  assumes "seq m f = Some (r, s', ev)"
  obtains (raised) e where "m = Some (Some e, s', ev)" "r = Some e"
  | (passed) s1 ev1 ev2 where "m = Some (None, s1, ev1)" "f s1 = Some (r, s', ev2)" "ev = ev1 @ ev2"
  using assms by (auto simp: seq_def split: option.splits prod.splits)

lemma for_rows_events:
  assumes app: "\<And>xs ys. P xs \<Longrightarrow> P ys \<Longrightarrow> P (xs @ ys)" and nil: "P []"
    and body: "\<And>row s r s' ev. row \<in> set rows \<Longrightarrow> body row s = Some (r, s', ev) \<Longrightarrow> P ev"
  shows "for_rows body rows s = Some (r, s', ev) \<Longrightarrow> P ev"
  using body
proof (induction rows arbitrary: s r s' ev)
  case Nil
  then show ?case using nil by (simp add: emit_def)
next
  case (Cons row rows)
  have here: "P ev" if "body row s = Some (r, s', ev)" for s r s' ev
    using Cons.prems(2) [OF list.set_intros(1) that] .
  have later: "P ev" if "row' \<in> set rows" "body row' s = Some (r, s', ev)" for row' s r s' ev
    using Cons.prems(2) [OF list.set_intros(2) that(2)] that(1) .
  from Cons.prems(1) have "seq (body row s) (for_rows body rows) = Some (r, s', ev)" by simp
  then show ?case
  proof (cases rule: seq_cases)
    case (raised e)
    then show ?thesis using here by simp
  next
    case (passed s1 ev1 ev2)
    have "P ev1" using passed(1) here by simp
    moreover have "P ev2" using Cons.IH [OF passed(2)] later by simp
    ultimately show ?thesis using passed(3) app by simp
  qed
qed

lemma gen_pages_events:
  assumes app: "\<And>xs ys. P xs \<Longrightarrow> P ys \<Longrightarrow> P (xs @ ys)" and nil: "P []"
    and transport: "\<And>ev. list_all is_transport ev \<Longrightarrow> P ev"
    and body: "\<And>row s r s' ev. body row s = Some (r, s', ev) \<Longrightarrow> P ev"
  shows "gen_pages fuel server url params page body s = Some (r, s', ev) \<Longrightarrow> P ev"
proof (induction fuel arbitrary: params page s r s' ev)
  case 0
  then show ?case by simp
next
  case (Suc fuel)
  let ?ps = "AList.update ''page'' (JInt (int page)) params"
  from Suc.prems obtain res ev0 where req: "request url ?ps (server url ?ps) = Some (res, ev0)"
    by (auto simp: Let_def split: option.splits)
  have P0: "P ev0" using request_transport [OF req] transport by simp
  show ?case
  proof (cases res)
    case (Inl e)
    with Suc.prems req P0 show ?thesis by (simp add: Let_def)
  next
    case (Inr resp)
    show ?thesis
    proof (cases "py_iter (content resp)")
      case (Inl e)
      with Suc.prems req P0 Inr show ?thesis by (simp add: Let_def)
    next
      case data: (Inr data)
      let ?next = "\<lambda>s'. if length data = PER_PAGE
                       then gen_pages fuel server url ?ps (page + 1) body s' else emit [] s'"
      from Suc.prems req Inr data
      have run: "seq (seq (emit ev0 s) (for_rows body data)) ?next = Some (r, s', ev)"
        by (simp add: Let_def)
      have first: "P ev1" if "seq (emit ev0 s) (for_rows body data) = Some (r1, s1, ev1)" for r1 s1 ev1
        using that
      proof (cases rule: seq_cases)
        case (raised e)
        then show ?thesis by (simp add: emit_def)
      next
        case (passed s0 e1 e2)
        then have "e1 = ev0" by (simp add: emit_def)
        moreover have "P e2" using for_rows_events [OF app nil _ passed(2)] body by blast
        ultimately show ?thesis using passed(3) P0 app by simp
      qed
      from run show ?thesis
      proof (cases rule: seq_cases)
        case (raised e)
        then show ?thesis using first by simp
      next
        case (passed s1 ev1 ev2)
        have "P ev1" using first passed(1) by simp
        moreover have "P ev2"
          using passed(2) Suc.IH nil by (auto simp: emit_def split: if_splits)
        ultimately show ?thesis using passed(3) app by simp
      qed
    qed
  qed
qed

lemma gen_request_events:
  assumes "\<And>xs ys. P xs \<Longrightarrow> P ys \<Longrightarrow> P (xs @ ys)" "P []"
    and "\<And>ev. list_all is_transport ev \<Longrightarrow> P ev"
    and "\<And>row s r s' ev. body row s = Some (r, s', ev) \<Longrightarrow> P ev"
  shows "gen_request fuel server url params body s = Some (r, s', ev) \<Longrightarrow> P ev"
  unfolding gen_request_def using gen_pages_events [of P body] assms by blast

lemma except_status_Some:
  "except_status recovered m = Some (r, s, ev) \<Longrightarrow> \<exists>r'. m = Some (r', s, ev)"
  by (auto simp: except_status_def split: option.splits prod.splits error.splits if_splits)

lemma sync_sub_events:
  assumes "\<And>xs ys. P xs \<Longrightarrow> P ys \<Longrightarrow> P (xs @ ys)" "P []"
    and "\<And>ev. list_all is_transport ev \<Longrightarrow> P ev"
    and "\<And>row s r s' ev. body row s = Some (r, s', ev) \<Longrightarrow> P ev"
    and "sync_sub fuel server CONFIG ident entity recovered body STATE = Some (r, S', ev)"
  shows "P ev"
proof -
  from assms(5) obtain r' where
    "gen_request fuel server (get_url_sub_ticket CONFIG ident entity) [] body STATE = Some (r', S', ev)"
    unfolding sync_sub_def sub_request_def by (blast dest: except_status_Some)
  then have g: "gen_request fuel server (get_url_sub_ticket CONFIG ident entity) [] body STATE
                  = Some (r', S', ev)" .
  show ?thesis
  proof (rule gen_request_events [where P = P, OF assms(1-3) _ g])
    fix row s r s' ev
    assume "body row s = Some (r, s', ev)"
    then show "P ev" by (rule assms(4))
  qed
qed

lemma seq_events:
  assumes "seq m f = Some (r, s', ev)"
    and "\<And>xs ys. P xs \<Longrightarrow> P ys \<Longrightarrow> P (xs @ ys)"
    and "\<And>r s ev. m = Some (r, s, ev) \<Longrightarrow> P ev"
    and "\<And>s r s' ev. f s = Some (r, s', ev) \<Longrightarrow> P ev"
  shows "P ev"
  using assms(1)
proof (cases rule: seq_cases)
  case (raised e)
  then show ?thesis using assms(3) by simp
next
  case (passed s1 ev1 ev2)
  then show ?thesis using assms(2-4) by blast
qed


lemma ratings_row_events:
  assumes "ratings_row start subrow STATE = Some (r, S', ev)" and "P []"
    and "\<And>row' S r S' ev. sub_row ''satisfaction_ratings'' start row' S = Some (r, S', ev) \<Longrightarrow> P ev"
  shows "P ev"
  using assms
  by (auto simp: ratings_row_def raise_def split: sum.splits json.splits)

lemma ticket_row_events:
  assumes run: "ticket_row fuel server CONFIG ns start row STATE = Some (r, S', ev)"
    and app: "\<And>xs ys. P xs \<Longrightarrow> P ys \<Longrightarrow> P (xs @ ys)" and nil: "P []"
    and tr: "\<And>ev. list_all is_transport ev \<Longrightarrow> P ev"
    and sub: "\<And>stream subrow S r S' ev.
                stream \<in> set sub_streams \<Longrightarrow> sub_row stream start subrow S = Some (r, S', ev) \<Longrightarrow> P ev"
    and fin: "\<And>b row' S. py_getitem row' ''updated_at'' = Inr b \<Longrightarrow>
                P [UpdateState ns b, WriteRecord ''tickets'' row', WriteState (update_state S ns b)]"
  shows "P ev"
proof -
  have subs: "P ev"
    if "sync_sub fuel server CONFIG ident entity recovered (sub_row stream start) S = Some (r, S', ev)"
      "stream \<in> set sub_streams" for ident entity recovered stream S r S' ev
  proof (rule sync_sub_events [where P = P and body = "sub_row stream start", OF app nil tr _ that(1)])
    fix row s r s' ev
    assume "sub_row stream start row s = Some (r, s', ev)"
    then show "P ev" using sub that(2) by blast
  qed
  have rat: "P ev"
    if "sync_sub fuel server CONFIG ident entity recovered (ratings_row start) S = Some (r, S', ev)"
    for ident entity recovered S r S' ev
  proof (rule sync_sub_events [where P = P and body = "ratings_row start", OF app nil tr _ that])
    fix row s r s' ev
    assume "ratings_row start row s = Some (r, s', ev)"
    then show "P ev"
    proof (rule ratings_row_events [where P = P])
      show "P []" by (rule nil)
    next
      fix row' S r S' ev
      assume "sub_row ''satisfaction_ratings'' start row' S = Some (r, S', ev)"
      then show "P ev" using sub [of "''satisfaction_ratings''"] by (simp add: sub_streams_def)
    qed
  qed
  show ?thesis
  proof (cases "py_getitem row ''id''")
    case (Inl e)
    with run nil show ?thesis by (simp add: ticket_row_def raise_def)
  next
    case (Inr ident)
    then obtain kvs0 where row: "row = JObj kvs0"
      by (cases row) (auto simp: py_getitem_def)
    let ?kvs = "AList.delete ''attachments'' kvs0"
    show ?thesis
    proof (cases "map_of ?kvs ''custom_fields''")
      case None
      with run Inr row nil show ?thesis by (simp add: ticket_row_def raise_def)
    next
      case (Some cf)
      show ?thesis
      proof (cases "py_items cf")
        case (Inl e)
        with run Inr row Some nil show ?thesis by (simp add: ticket_row_def raise_def)
      next
        case d: (Inr d)
        let ?kvs' = "AList.update ''custom_fields'' (JList (transform_dict d ''name'' ''value'' True)) ?kvs"
        let ?fin = "\<lambda>STATE. case map_of ?kvs' ''updated_at'' of
                            None \<Rightarrow> raise (KeyError ''updated_at'') STATE
                          | Some bookmark \<Rightarrow>
                              (let STATE' = update_state STATE ns bookmark in
                               emit [UpdateState ns bookmark,
                                     WriteRecord ''tickets'' (JObj ?kvs'),
                                     WriteState STATE'] STATE')"
        have last: "P ev" if "?fin S = Some (r, S', ev)" for S r S' ev
        proof (cases "map_of ?kvs' ''updated_at''")
          case None
          with that nil show ?thesis by (simp add: raise_def)
        next
          case (Some b)
          then have "py_getitem (JObj ?kvs') ''updated_at'' = Inr b" by (simp add: py_getitem_def)
          from fin [OF this, of S] that Some show ?thesis by (auto simp: emit_def Let_def)
        qed
        from run Inr row Some d have run':
          "seq (sync_sub fuel server CONFIG ident ''conversations'' [403] (sub_row ''conversations'' start) STATE)
             (\<lambda>STATE. seq (sync_sub fuel server CONFIG ident ''satisfaction_ratings'' [403] (ratings_row start) STATE)
             (\<lambda>STATE. seq (sync_sub fuel server CONFIG ident ''time_entries'' [403, 404] (sub_row ''time_entries'' start) STATE)
               ?fin)) = Some (r, S', ev)"
          by (simp add: ticket_row_def Let_def)
        show ?thesis
        proof (rule seq_events [where P = P, OF run' app])
          fix r s ev
          assume "sync_sub fuel server CONFIG ident ''conversations'' [403]
                    (sub_row ''conversations'' start) STATE = Some (r, s, ev)"
          then show "P ev" using subs by (simp add: sub_streams_def)
        next
          fix s r s' ev
          assume "seq (sync_sub fuel server CONFIG ident ''satisfaction_ratings'' [403] (ratings_row start) s)
             (\<lambda>STATE. seq (sync_sub fuel server CONFIG ident ''time_entries'' [403, 404]
                              (sub_row ''time_entries'' start) STATE) ?fin) = Some (r, s', ev)"
          then show "P ev"
          proof (rule seq_events [where P = P, OF _ app])
            fix r s1 ev
            assume "sync_sub fuel server CONFIG ident ''satisfaction_ratings'' [403] (ratings_row start) s
                      = Some (r, s1, ev)"
            then show "P ev" by (rule rat)
          next
            fix s r s' ev
            assume "seq (sync_sub fuel server CONFIG ident ''time_entries'' [403, 404]
                           (sub_row ''time_entries'' start) s) ?fin = Some (r, s', ev)"
            then show "P ev"
            proof (rule seq_events [where P = P, OF _ app])
              fix r s1 ev
              assume "sync_sub fuel server CONFIG ident ''time_entries'' [403, 404]
                        (sub_row ''time_entries'' start) s = Some (r, s1, ev)"
              then show "P ev" using subs by (simp add: sub_streams_def)
            next
              fix s r s' ev
              assume "?fin s = Some (r, s', ev)"
              then show "P ev" by (rule last)
            qed
          qed
        qed
      qed
    qed
  qed
qed

lemma sync_tickets_by_filter_events:
  assumes run: "sync_tickets_by_filter fuel server CONFIG predefined_filter STATE = Some (r, S', ev)"
    and app: "\<And>xs ys. P xs \<Longrightarrow> P ys \<Longrightarrow> P (xs @ ys)" and nil: "P []"
    and tr: "\<And>ev. list_all is_transport ev \<Longrightarrow> P ev"
    and sub: "\<And>stream subrow S r S' ev.
                stream \<in> set sub_streams \<Longrightarrow>
                sub_row stream (get_start CONFIG STATE (state_entity predefined_filter)) subrow S
                  = Some (r, S', ev) \<Longrightarrow> P ev"
    and fin: "\<And>b row' S. py_getitem row' ''updated_at'' = Inr b \<Longrightarrow>
                P [UpdateState (state_entity predefined_filter) b, WriteRecord ''tickets'' row',
                   WriteState (update_state S (state_entity predefined_filter) b)]"
  shows "P ev"
proof (cases "get_url CONFIG ''tickets''")
  case (Inl e)
  with run nil show ?thesis by (simp add: sync_tickets_by_filter_def Let_def raise_def)
next
  case (Inr url)
  let ?start = "get_start CONFIG STATE (state_entity predefined_filter)"
  from run Inr obtain params where
    "gen_request fuel server url params
       (ticket_row fuel server CONFIG (state_entity predefined_filter) ?start) STATE = Some (r, S', ev)"
    by (simp add: sync_tickets_by_filter_def Let_def)
  then have g: "gen_request fuel server url params
       (ticket_row fuel server CONFIG (state_entity predefined_filter) ?start) STATE = Some (r, S', ev)" .
  show ?thesis
  proof (rule gen_request_events [where P = P, OF app nil tr _ g])
    fix row s r s' ev
    assume t: "ticket_row fuel server CONFIG (state_entity predefined_filter) ?start row s = Some (r, s', ev)"
    show "P ev"
    proof (rule ticket_row_events [where P = P, OF t app nil tr])
      fix stream subrow S r S' ev
      assume "stream \<in> set sub_streams" "sub_row stream ?start subrow S = Some (r, S', ev)"
      then show "P ev" by (rule sub)
    next
      fix b row' S
      assume "py_getitem row' ''updated_at'' = Inr b"
      then show "P [UpdateState (state_entity predefined_filter) b, WriteRecord ''tickets'' row',
                   WriteState (update_state S (state_entity predefined_filter) b)]" by (rule fin)
    qed
  qed
qed

lemma sync_time_filtered_events:
  assumes run: "sync_time_filtered fuel server CONFIG entity STATE = Some (r, S', ev)"
    and app: "\<And>xs ys. P xs \<Longrightarrow> P ys \<Longrightarrow> P (xs @ ys)" and nil: "P []"
    and tr: "\<And>ev. list_all is_transport ev \<Longrightarrow> P ev"
    and row: "\<And>row S r S' ev.
                time_filtered_row entity (get_start CONFIG STATE entity) row S = Some (r, S', ev) \<Longrightarrow> P ev"
    and schema: "P [WriteSchema entity]" and state: "\<And>S. P [WriteState S]"
  shows "P ev"
proof (cases "get_url CONFIG entity")
  case (Inl e)
  with run have "ev = [WriteSchema entity]"
    by (auto simp: sync_time_filtered_def Let_def raise_def)
  then show ?thesis using schema by simp
next
  case (Inr url)
  let ?gen = "gen_request fuel server url []
                (time_filtered_row entity (get_start CONFIG STATE entity)) STATE"
  from run Inr obtain r1 s1 ev1 where
    inner: "seq ?gen (\<lambda>STATE. emit [WriteState STATE] STATE) = Some (r1, s1, ev1)"
    and ev: "ev = [WriteSchema entity] @ ev1"
    by (auto simp: sync_time_filtered_def Let_def split: option.splits)
  have "P ev1"
  proof (rule seq_events [where P = P, OF inner app])
    fix r s ev
    assume g: "?gen = Some (r, s, ev)"
    show "P ev"
    proof (rule gen_request_events [where P = P, OF app nil tr _ g])
      fix row' s r s' ev
      assume "time_filtered_row entity (get_start CONFIG STATE entity) row' s = Some (r, s', ev)"
      then show "P ev" by (rule row)
    qed
  next
    fix s r s' ev
    assume "emit [WriteState s] s = Some (r, s', ev)"
    then show "P ev" using state by (auto simp: emit_def)
  qed
  with ev schema app show ?thesis by blast
qed

lemma roles_run:
  "sync_time_filtered 1 acme_server acme ''roles'' [] = Some (None, roles_state, roles_trace)"
  by code_simp

lemma roles_rerun:
  "sync_time_filtered 1 acme_server acme ''roles'' roles_state = Some (None, roles_state, roles_trace)"
  by code_simp

lemma tickets_run:
  "sync_tickets_by_filter 1 acme_server acme None [] =
     Some (None, [(''tickets'', JStr ''2019-06-01T00:00:00Z'')], tickets_trace)"
  by code_simp

section \<open>Order of advance and emission\<close>

lemma advance_then_emit_append:
  "advance_then_emit ns main xs \<Longrightarrow> advance_then_emit ns main ys \<Longrightarrow> advance_then_emit ns main (xs @ ys)"
  by (induction ns main xs rule: advance_then_emit.induct) auto

lemma advance_then_emit_transport:
  "list_all is_transport ev \<Longrightarrow> advance_then_emit ns main ev"
proof (induction ev)
  case Nil
  then show ?case by simp
next
  case (Cons e ev)
  then show ?case by (cases e) auto
qed

lemma sub_row_advance:
  "sub_row stream start subrow STATE = Some (r, S', ev) \<Longrightarrow> stream \<noteq> main \<Longrightarrow> advance_then_emit ns main ev"
  by (auto simp: sub_row_def raise_def emit_def split: sum.splits if_splits)

lemma time_filtered_row_advance:
  "time_filtered_row entity start row STATE = Some (r, S', ev) \<Longrightarrow> advance_then_emit entity entity ev"
  by (auto simp: time_filtered_row_def raise_def emit_def py_getitem_def update_conv'
      split: sum.splits json.splits option.splits bool.splits)

text \<open>
  C1, as amended. In every run of \<open>sync_time_filtered\<close> and of
  \<open>sync_tickets_by_filter\<close>, whatever the server answers and whether the run ends or
  raises, the watermark of the namespace is advanced to a record's bookmark directly
  before that record is written to the sink: each \<open>update_state\<close> is followed at once
  by the \<open>write_record\<close> of a record (of the entity, or a ticket) carrying the bookmark
  just stored, and no such record is written without that advance directly before it.
\<close>

theorem advance_directly_before_emit:
  "(sync_time_filtered fuel server CONFIG entity STATE = Some (r, S', ev)
      \<longrightarrow> advance_then_emit entity entity ev)
   \<and> (sync_tickets_by_filter fuel server CONFIG predefined_filter STATE = Some (r', S'', ev')
      \<longrightarrow> advance_then_emit (state_entity predefined_filter) ''tickets'' ev')"
proof (intro conjI impI)
  assume "sync_time_filtered fuel server CONFIG entity STATE = Some (r, S', ev)"
  then show "advance_then_emit entity entity ev"
    by (rule sync_time_filtered_events)
      (simp_all add: advance_then_emit_append advance_then_emit_transport time_filtered_row_advance)
next
  assume "sync_tickets_by_filter fuel server CONFIG predefined_filter STATE = Some (r', S'', ev')"
  then show "advance_then_emit (state_entity predefined_filter) ''tickets'' ev'"
  proof (rule sync_tickets_by_filter_events)
    fix stream subrow S r S' ev
    assume "stream \<in> set sub_streams"
      and "sub_row stream (get_start CONFIG STATE (state_entity predefined_filter)) subrow S = Some (r, S', ev)"
    then show "advance_then_emit (state_entity predefined_filter) ''tickets'' ev"
      by (auto simp: sub_streams_def intro: sub_row_advance)
  qed (simp_all add: advance_then_emit_append advance_then_emit_transport)
qed

theorem advance_directly_before_emit_witness:
  "sync_time_filtered 1 acme_server acme ''roles'' [] = Some (None, roles_state, roles_trace)
   \<and> advance_then_emit ''roles'' ''roles'' roles_trace
   \<and> sync_tickets_by_filter 1 acme_server acme None []
       = Some (None, [(''tickets'', JStr ''2019-06-01T00:00:00Z'')], tickets_trace)
   \<and> advance_then_emit ''tickets'' ''tickets'' tickets_trace"
  using advance_directly_before_emit
    [where fuel = 1 and server = acme_server and CONFIG = acme and entity = "''roles''"
       and STATE = "[]" and r = None and S' = roles_state and ev = roles_trace
       and predefined_filter = None and r' = None
       and S'' = "[(''tickets'', JStr ''2019-06-01T00:00:00Z'')]" and ev' = tickets_trace]
    roles_run tickets_run
  by (simp add: state_entity_def)

text \<open>
  C1 as stated fails: in the run over the one role of the account, the advance to the
  role's bookmark comes before any record has been written.
\<close>

theorem advance_after_emit_counterexample:
  "sync_time_filtered 1 acme_server acme ''roles'' [] = Some (None, roles_state, roles_trace)
   \<and> \<not> emitted_before_advance [] roles_trace"
  using roles_run by (simp add: roles_trace_def)

section \<open>Fresh records in a trace\<close>

lemma fresh_transport: "list_all is_transport ev \<Longrightarrow> list_all (fresh_event streams start) ev"
proof (induction ev)
  case Nil
  then show ?case by simp
next
  case (Cons e ev)
  then show ?case by (cases e) auto
qed

lemma sub_row_fresh:
  "sub_row stream start subrow STATE = Some (r, S', ev) \<Longrightarrow> list_all (fresh_event streams start) ev"
  by (auto simp: sub_row_def raise_def emit_def split: sum.splits if_splits)

section \<open>One ticket\<close>

lemma ticket_row_unfold:
  assumes "map_of kvs ''id'' = Some ident" "map_of kvs ''custom_fields'' = Some (JObj d)"
  shows "ticket_row fuel server CONFIG ns start (JObj kvs) STATE =
     seq (sync_sub fuel server CONFIG ident ''conversations'' [403] (sub_row ''conversations'' start) STATE)
    (\<lambda>STATE.
     seq (sync_sub fuel server CONFIG ident ''satisfaction_ratings'' [403] (ratings_row start) STATE)
    (\<lambda>STATE.
     seq (sync_sub fuel server CONFIG ident ''time_entries'' [403, 404] (sub_row ''time_entries'' start) STATE)
    (\<lambda>STATE.
     case map_of kvs ''updated_at'' of
       None \<Rightarrow> raise (KeyError ''updated_at'') STATE
     | Some bookmark \<Rightarrow>
         emit [UpdateState ns bookmark, WriteRecord ''tickets'' (written_ticket kvs d),
               WriteState (update_state STATE ns bookmark)]
           (update_state STATE ns bookmark))))"
  using assms unfolding ticket_row_def written_ticket_def Let_def
  by (simp add: py_getitem_def py_items_def delete_conv' update_conv')

lemma sync_sub_recovered:
  assumes "sub_request fuel server CONFIG ident entity body STATE = Some (r, S, ev)"
    "recovered_by statuses r"
  shows "sync_sub fuel server CONFIG ident entity statuses body STATE = Some (None, S, ev)"
  using assms
  by (cases "(statuses, r)" rule: recovered_by.cases)
     (auto simp: sync_sub_def sub_request_def except_status_def)

lemma sync_sub_fatal:
  assumes "sub_request fuel server CONFIG ident entity body STATE = Some (Some e, S, ev)"
    "\<not> recovered_by statuses (Some e)"
  shows "sync_sub fuel server CONFIG ident entity statuses body STATE = Some (Some e, S, ev)"
  using assms
  by (cases e) (auto simp: sync_sub_def sub_request_def except_status_def)

lemma ticket_row_completes:
  assumes "map_of kvs ''id'' = Some ident" "map_of kvs ''custom_fields'' = Some (JObj d)"
    "map_of kvs ''updated_at'' = Some bookmark"
    "sync_sub fuel server CONFIG ident ''conversations'' [403] (sub_row ''conversations'' start) STATE
       = Some (None, S1, e1)"
    "sync_sub fuel server CONFIG ident ''satisfaction_ratings'' [403] (ratings_row start) S1
       = Some (None, S2, e2)"
    "sync_sub fuel server CONFIG ident ''time_entries'' [403, 404] (sub_row ''time_entries'' start) S2
       = Some (None, S3, e3)"
  shows "ticket_row fuel server CONFIG ns start (JObj kvs) STATE =
     Some (None, update_state S3 ns bookmark,
           e1 @ e2 @ e3 @
           [UpdateState ns bookmark, WriteRecord ''tickets'' (written_ticket kvs d),
            WriteState (update_state S3 ns bookmark)])"
  using assms by (simp add: ticket_row_unfold emit_def)

lemma do_sync_tickets_raises:
  assumes "''tickets'' \<in> set (selected_streams CONFIG)"
    "sync_tickets fuel server CONFIG STATE = Some (Some e, S, ev)"
  shows "do_sync fuel server CONFIG STATE =
     Some (Some (case e of HTTPError status body \<Rightarrow> SystemExit 1 | _ \<Rightarrow> e), S, ev)"
  using assms by (cases e) (simp_all add: do_sync_def when_selected_def)

lemma gen_request_first_page_fails:
  assumes "request url (AList.update ''page'' (JInt 1) (AList.update ''per_page'' (JInt 100) params))
             (server url (AList.update ''page'' (JInt 1) (AList.update ''per_page'' (JInt 100) params)))
           = Some (Inl e, ev)"
  shows "gen_request (Suc fuel) server url params body STATE = Some (Some e, STATE, ev)
         \<and> list_all is_transport ev"
  using assms request_transport [OF assms] by (simp add: gen_request_def PER_PAGE_def)

lemma conversations_7:
  "sync_sub 1 acme_server acme (JInt 7) ''conversations'' [403] (sub_row ''conversations'' acme_start) []
     = Some (None, [], [Send ''https://acme.freshdesk.com/api/v2/tickets/7/conversations'' first_page,
                        WriteRecord ''conversations'' conversation_70])"
  by code_simp

lemma satisfaction_ratings_7:
  "sync_sub 1 acme_server acme (JInt 7) ''satisfaction_ratings'' [403] (ratings_row acme_start) []
     = Some (None, [], [Send ''https://acme.freshdesk.com/api/v2/tickets/7/satisfaction_ratings'' first_page])"
  by code_simp

lemma time_entries_7:
  "sync_sub 1 acme_server acme (JInt 7) ''time_entries'' [403, 404] (sub_row ''time_entries'' acme_start) []
     = Some (None, [], [Send ''https://acme.freshdesk.com/api/v2/tickets/7/time_entries'' first_page])"
  by code_simp


text \<open>
  C4, as amended. For a ticket with an id, custom fields and a bookmark: when each of the
  three sub-resource loops either ends or raises an \<open>HTTPError\<close> with status 403 (for
  \<open>time_entries\<close> also 404), the ticket is written and \<open>ticket_row\<close> ends
  normally, after the events each loop produced up to its end or its failure and none
  of that sub-resource after the failure; any other exception of a loop is the result
  of \<open>ticket_row\<close>, the later loops and the ticket's own record are not reached, and
  an \<open>HTTPError\<close> that leaves \<open>sync_tickets\<close> makes \<open>do_sync\<close> exit with
  status 1. A loop whose first request fails produces the events of that request only,
  no record among them.
\<close>

theorem sub_resource_recovery:
  "(map_of kvs ''id'' = Some ident \<and> map_of kvs ''custom_fields'' = Some (JObj d)
    \<and> map_of kvs ''updated_at'' = Some bookmark
    \<and> sub_request fuel server CONFIG ident ''conversations'' (sub_row ''conversations'' start) STATE
         = Some (r1, S1, e1) \<and> recovered_by [403] r1
    \<and> sub_request fuel server CONFIG ident ''satisfaction_ratings'' (ratings_row start) S1
         = Some (r2, S2, e2) \<and> recovered_by [403] r2
    \<and> sub_request fuel server CONFIG ident ''time_entries'' (sub_row ''time_entries'' start) S2
         = Some (r3, S3, e3) \<and> recovered_by [403, 404] r3
    \<longrightarrow> ticket_row fuel server CONFIG ns start (JObj kvs) STATE =
          Some (None, update_state S3 ns bookmark,
                e1 @ e2 @ e3 @
                [UpdateState ns bookmark, WriteRecord ''tickets'' (written_ticket kvs d),
                 WriteState (update_state S3 ns bookmark)]))
   \<and> (map_of kvs ''id'' = Some ident \<and> map_of kvs ''custom_fields'' = Some (JObj d)
    \<and> sub_request fuel server CONFIG ident ''conversations'' (sub_row ''conversations'' start) STATE
         = Some (Some e, S1, e1) \<and> \<not> recovered_by [403] (Some e)
    \<longrightarrow> ticket_row fuel server CONFIG ns start (JObj kvs) STATE = Some (Some e, S1, e1))
   \<and> (map_of kvs ''id'' = Some ident \<and> map_of kvs ''custom_fields'' = Some (JObj d)
    \<and> sub_request fuel server CONFIG ident ''conversations'' (sub_row ''conversations'' start) STATE
         = Some (r1, S1, e1) \<and> recovered_by [403] r1
    \<and> sub_request fuel server CONFIG ident ''satisfaction_ratings'' (ratings_row start) S1
         = Some (Some e, S2, e2) \<and> \<not> recovered_by [403] (Some e)
    \<longrightarrow> ticket_row fuel server CONFIG ns start (JObj kvs) STATE = Some (Some e, S2, e1 @ e2))
   \<and> (map_of kvs ''id'' = Some ident \<and> map_of kvs ''custom_fields'' = Some (JObj d)
    \<and> sub_request fuel server CONFIG ident ''conversations'' (sub_row ''conversations'' start) STATE
         = Some (r1, S1, e1) \<and> recovered_by [403] r1
    \<and> sub_request fuel server CONFIG ident ''satisfaction_ratings'' (ratings_row start) S1
         = Some (r2, S2, e2) \<and> recovered_by [403] r2
    \<and> sub_request fuel server CONFIG ident ''time_entries'' (sub_row ''time_entries'' start) S2
         = Some (Some e, S3, e3) \<and> \<not> recovered_by [403, 404] (Some e)
    \<longrightarrow> ticket_row fuel server CONFIG ns start (JObj kvs) STATE = Some (Some e, S3, e1 @ e2 @ e3))
   \<and> (request (get_url_sub_ticket CONFIG ident entity) first_page
         (server (get_url_sub_ticket CONFIG ident entity) first_page) = Some (Inl e, ev)
    \<longrightarrow> sub_request (Suc fuel) server CONFIG ident entity body STATE = Some (Some e, STATE, ev)
      \<and> list_all is_transport ev)
   \<and> (''tickets'' \<in> set (selected_streams CONFIG)
    \<and> sync_tickets fuel server CONFIG STATE = Some (Some (HTTPError status reason), S, ev)
    \<longrightarrow> do_sync fuel server CONFIG STATE = Some (Some (SystemExit 1), S, ev))"
proof (intro conjI impI)
  assume "map_of kvs ''id'' = Some ident \<and> map_of kvs ''custom_fields'' = Some (JObj d)
    \<and> map_of kvs ''updated_at'' = Some bookmark
    \<and> sub_request fuel server CONFIG ident ''conversations'' (sub_row ''conversations'' start) STATE
         = Some (r1, S1, e1) \<and> recovered_by [403] r1
    \<and> sub_request fuel server CONFIG ident ''satisfaction_ratings'' (ratings_row start) S1
         = Some (r2, S2, e2) \<and> recovered_by [403] r2
    \<and> sub_request fuel server CONFIG ident ''time_entries'' (sub_row ''time_entries'' start) S2
         = Some (r3, S3, e3) \<and> recovered_by [403, 404] r3"
  then show "ticket_row fuel server CONFIG ns start (JObj kvs) STATE =
          Some (None, update_state S3 ns bookmark,
                e1 @ e2 @ e3 @
                [UpdateState ns bookmark, WriteRecord ''tickets'' (written_ticket kvs d),
                 WriteState (update_state S3 ns bookmark)])"
    using ticket_row_completes [of kvs ident d bookmark fuel server CONFIG start STATE S1 e1 S2 e2 S3 e3 ns]
    by (simp add: sync_sub_recovered)
next
  assume "map_of kvs ''id'' = Some ident \<and> map_of kvs ''custom_fields'' = Some (JObj d)
    \<and> sub_request fuel server CONFIG ident ''conversations'' (sub_row ''conversations'' start) STATE
         = Some (Some e, S1, e1) \<and> \<not> recovered_by [403] (Some e)"
  then show "ticket_row fuel server CONFIG ns start (JObj kvs) STATE = Some (Some e, S1, e1)"
    by (simp add: ticket_row_unfold sync_sub_fatal)
next
  assume "map_of kvs ''id'' = Some ident \<and> map_of kvs ''custom_fields'' = Some (JObj d)
    \<and> sub_request fuel server CONFIG ident ''conversations'' (sub_row ''conversations'' start) STATE
         = Some (r1, S1, e1) \<and> recovered_by [403] r1
    \<and> sub_request fuel server CONFIG ident ''satisfaction_ratings'' (ratings_row start) S1
         = Some (Some e, S2, e2) \<and> \<not> recovered_by [403] (Some e)"
  then show "ticket_row fuel server CONFIG ns start (JObj kvs) STATE = Some (Some e, S2, e1 @ e2)"
    by (simp add: ticket_row_unfold sync_sub_fatal sync_sub_recovered)
next
  assume "map_of kvs ''id'' = Some ident \<and> map_of kvs ''custom_fields'' = Some (JObj d)
    \<and> sub_request fuel server CONFIG ident ''conversations'' (sub_row ''conversations'' start) STATE
         = Some (r1, S1, e1) \<and> recovered_by [403] r1
    \<and> sub_request fuel server CONFIG ident ''satisfaction_ratings'' (ratings_row start) S1
         = Some (r2, S2, e2) \<and> recovered_by [403] r2
    \<and> sub_request fuel server CONFIG ident ''time_entries'' (sub_row ''time_entries'' start) S2
         = Some (Some e, S3, e3) \<and> \<not> recovered_by [403, 404] (Some e)"
  then show "ticket_row fuel server CONFIG ns start (JObj kvs) STATE = Some (Some e, S3, e1 @ e2 @ e3)"
    by (simp add: ticket_row_unfold sync_sub_fatal sync_sub_recovered)
next
  assume a: "request (get_url_sub_ticket CONFIG ident entity) first_page
         (server (get_url_sub_ticket CONFIG ident entity) first_page) = Some (Inl e, ev)"
  then show "sub_request (Suc fuel) server CONFIG ident entity body STATE = Some (Some e, STATE, ev)"
    using gen_request_first_page_fails
      [of "get_url_sub_ticket CONFIG ident entity" "[]" server e ev fuel body STATE]
    by (simp add: sub_request_def first_page_def)
  from a show "list_all is_transport ev" by (rule request_transport)
next
  assume "''tickets'' \<in> set (selected_streams CONFIG)
    \<and> sync_tickets fuel server CONFIG STATE = Some (Some (HTTPError status reason), S, ev)"
  then show "do_sync fuel server CONFIG STATE = Some (Some (SystemExit 1), S, ev)"
    using do_sync_tickets_raises [of CONFIG fuel server STATE "HTTPError status reason" S ev] by simp
qed

lemma sub_7_conversations:
  "sub_request 1 acme_server acme (JInt 7) ''conversations'' (sub_row ''conversations'' acme_start) []
     = Some (None, [], [Send (get_url_sub_ticket acme (JInt 7) ''conversations'') first_page,
                        WriteRecord ''conversations'' conversation_70])"
  by code_simp

lemma sub_7_satisfaction_ratings:
  "sub_request 1 acme_server acme (JInt 7) ''satisfaction_ratings'' (ratings_row acme_start) []
     = Some (Some (HTTPError 403 JNull), [],
             [Send (get_url_sub_ticket acme (JInt 7) ''satisfaction_ratings'') first_page])"
  by code_simp

lemma sub_7_time_entries:
  "sub_request 1 acme_server acme (JInt 7) ''time_entries'' (sub_row ''time_entries'' acme_start) []
     = Some (Some (HTTPError 404 JNull), [],
             [Send (get_url_sub_ticket acme (JInt 7) ''time_entries'') first_page])"
  by code_simp

lemma sub_8_conversations:
  "sub_request 1 acme_server acme (JInt 8) ''conversations'' (sub_row ''conversations'' acme_start) []
     = Some (Some (HTTPError 400 JNull), [],
             [Send (get_url_sub_ticket acme (JInt 8) ''conversations'') first_page])"
  by code_simp

lemma sub_9_conversations:
  "sub_request 1 acme_server acme (JInt 9) ''conversations'' (sub_row ''conversations'' acme_start) []
     = Some (None, [], [Send (get_url_sub_ticket acme (JInt 9) ''conversations'') first_page])"
  by code_simp

lemma sub_9_satisfaction_ratings:
  "sub_request 1 acme_server acme (JInt 9) ''satisfaction_ratings'' (ratings_row acme_start) []
     = Some (Some (HTTPError 400 JNull), [],
             [Send (get_url_sub_ticket acme (JInt 9) ''satisfaction_ratings'') first_page])"
  by code_simp

lemma sub_10_conversations:
  "sub_request 1 acme_server acme (JInt 10) ''conversations'' (sub_row ''conversations'' acme_start) []
     = Some (None, [], [Send (get_url_sub_ticket acme (JInt 10) ''conversations'') first_page])"
  by code_simp

lemma sub_10_satisfaction_ratings:
  "sub_request 1 acme_server acme (JInt 10) ''satisfaction_ratings'' (ratings_row acme_start) []
     = Some (None, [], [Send (get_url_sub_ticket acme (JInt 10) ''satisfaction_ratings'') first_page])"
  by code_simp

lemma sub_10_time_entries:
  "sub_request 1 acme_server acme (JInt 10) ''time_entries'' (sub_row ''time_entries'' acme_start) []
     = Some (Some (HTTPError 400 JNull), [],
             [Send (get_url_sub_ticket acme (JInt 10) ''time_entries'') first_page])"
  by code_simp

lemma request_7_satisfaction_ratings:
  "request (get_url_sub_ticket acme (JInt 7) ''satisfaction_ratings'') first_page
     (acme_server (get_url_sub_ticket acme (JInt 7) ''satisfaction_ratings'') first_page)
   = Some (Inl (HTTPError 403 JNull),
           [Send (get_url_sub_ticket acme (JInt 7) ''satisfaction_ratings'') first_page])"
  by code_simp

lemma tickets_8_run:
  "sync_tickets 1 acme_server_8 acme [] =
     Some (Some (HTTPError 400 JNull), [],
       [WriteSchema ''tickets'', WriteSchema ''conversations'', WriteSchema ''satisfaction_ratings'',
        WriteSchema ''time_entries'',
        Send ''https://acme.freshdesk.com/api/v2/tickets''
          [(''updated_since'', acme_start), (''order_by'', JStr ''updated_at''),
           (''order_type'', JStr ''asc''), (''include'', JStr ''requester,company,stats,description''),
           (''per_page'', JInt 100), (''page'', JInt 1)],
        Send (get_url_sub_ticket acme (JInt 8) ''conversations'') first_page])"
  by code_simp

theorem sub_resource_recovery_witness:
  "ticket_row 1 acme_server acme ''tickets'' acme_start ticket_7 [] =
     Some (None, [(''tickets'', JStr ''2019-06-01T00:00:00Z'')],
       [Send (get_url_sub_ticket acme (JInt 7) ''conversations'') first_page,
        WriteRecord ''conversations'' conversation_70,
        Send (get_url_sub_ticket acme (JInt 7) ''satisfaction_ratings'') first_page,
        Send (get_url_sub_ticket acme (JInt 7) ''time_entries'') first_page,
        UpdateState ''tickets'' (JStr ''2019-06-01T00:00:00Z''),
        WriteRecord ''tickets'' ticket_7_written,
        WriteState [(''tickets'', JStr ''2019-06-01T00:00:00Z'')]])
   \<and> ticket_row 1 acme_server acme ''tickets'' acme_start (JObj (plain_ticket 8)) [] =
     Some (Some (HTTPError 400 JNull), [],
       [Send (get_url_sub_ticket acme (JInt 8) ''conversations'') first_page])
   \<and> ticket_row 1 acme_server acme ''tickets'' acme_start (JObj (plain_ticket 9)) [] =
     Some (Some (HTTPError 400 JNull), [],
       [Send (get_url_sub_ticket acme (JInt 9) ''conversations'') first_page,
        Send (get_url_sub_ticket acme (JInt 9) ''satisfaction_ratings'') first_page])
   \<and> ticket_row 1 acme_server acme ''tickets'' acme_start (JObj (plain_ticket 10)) [] =
     Some (Some (HTTPError 400 JNull), [],
       [Send (get_url_sub_ticket acme (JInt 10) ''conversations'') first_page,
        Send (get_url_sub_ticket acme (JInt 10) ''satisfaction_ratings'') first_page,
        Send (get_url_sub_ticket acme (JInt 10) ''time_entries'') first_page])
   \<and> sub_request 1 acme_server acme (JInt 7) ''satisfaction_ratings'' (ratings_row acme_start) []
     = Some (Some (HTTPError 403 JNull), [],
             [Send (get_url_sub_ticket acme (JInt 7) ''satisfaction_ratings'') first_page])
   \<and> do_sync 1 acme_server_8 acme [] =
     Some (Some (SystemExit 1), [],
       [WriteSchema ''tickets'', WriteSchema ''conversations'', WriteSchema ''satisfaction_ratings'',
        WriteSchema ''time_entries'',
        Send ''https://acme.freshdesk.com/api/v2/tickets''
          [(''updated_since'', acme_start), (''order_by'', JStr ''updated_at''),
           (''order_type'', JStr ''asc''), (''include'', JStr ''requester,company,stats,description''),
           (''per_page'', JInt 100), (''page'', JInt 1)],
        Send (get_url_sub_ticket acme (JInt 8) ''conversations'') first_page])"
proof -
  note recover = sub_resource_recovery
    [where kvs = "[(''id'', JInt 7), (''attachments'', JList []),
                   (''custom_fields'', JObj [(''cf_vip'', JBool False)]),
                   (''updated_at'', JStr ''2019-06-01T00:00:00Z'')]"
       and ident = "JInt 7" and d = "[(''cf_vip'', JBool False)]"
       and bookmark = "JStr ''2019-06-01T00:00:00Z''" and start = acme_start
       and fuel = 1 and server = acme_server and CONFIG = acme and STATE = "[]" and ns = "''tickets''"
       and ?r1.0 = None and ?S1.0 = "[]"
       and ?e1.0 = "[Send (get_url_sub_ticket acme (JInt 7) ''conversations'') first_page,
                     WriteRecord ''conversations'' conversation_70]"
       and ?r2.0 = "Some (HTTPError 403 JNull)" and ?S2.0 = "[]"
       and ?e2.0 = "[Send (get_url_sub_ticket acme (JInt 7) ''satisfaction_ratings'') first_page]"
       and ?r3.0 = "Some (HTTPError 404 JNull)" and ?S3.0 = "[]"
       and ?e3.0 = "[Send (get_url_sub_ticket acme (JInt 7) ''time_entries'') first_page]"]
  note fatal_1 = sub_resource_recovery
    [where kvs = "plain_ticket 8" and ident = "JInt 8" and d = "[]" and start = acme_start
       and fuel = 1 and server = acme_server and CONFIG = acme and STATE = "[]" and ns = "''tickets''"
       and e = "HTTPError 400 JNull" and ?S1.0 = "[]"
       and ?e1.0 = "[Send (get_url_sub_ticket acme (JInt 8) ''conversations'') first_page]"]
  note fatal_2 = sub_resource_recovery
    [where kvs = "plain_ticket 9" and ident = "JInt 9" and d = "[]" and start = acme_start
       and fuel = 1 and server = acme_server and CONFIG = acme and STATE = "[]" and ns = "''tickets''"
       and ?r1.0 = None and ?S1.0 = "[]"
       and ?e1.0 = "[Send (get_url_sub_ticket acme (JInt 9) ''conversations'') first_page]"
       and e = "HTTPError 400 JNull" and ?S2.0 = "[]"
       and ?e2.0 = "[Send (get_url_sub_ticket acme (JInt 9) ''satisfaction_ratings'') first_page]"]
  note fatal_3 = sub_resource_recovery
    [where kvs = "plain_ticket 10" and ident = "JInt 10" and d = "[]" and start = acme_start
       and fuel = 1 and server = acme_server and CONFIG = acme and STATE = "[]" and ns = "''tickets''"
       and ?r1.0 = None and ?S1.0 = "[]"
       and ?e1.0 = "[Send (get_url_sub_ticket acme (JInt 10) ''conversations'') first_page]"
       and ?r2.0 = None and ?S2.0 = "[]"
       and ?e2.0 = "[Send (get_url_sub_ticket acme (JInt 10) ''satisfaction_ratings'') first_page]"
       and e = "HTTPError 400 JNull" and ?S3.0 = "[]"
       and ?e3.0 = "[Send (get_url_sub_ticket acme (JInt 10) ''time_entries'') first_page]"]
  note first = sub_resource_recovery
    [where CONFIG = acme and ident = "JInt 7" and entity = "''satisfaction_ratings''"
       and server = acme_server and e = "HTTPError 403 JNull" and fuel = 0 and STATE = "[]"
       and ev = "[Send (get_url_sub_ticket acme (JInt 7) ''satisfaction_ratings'') first_page]"
       and body = "ratings_row acme_start"]
  note exits = sub_resource_recovery
    [where CONFIG = acme and fuel = 1 and server = acme_server_8 and STATE = "[]"
       and status = 400 and reason = JNull and S = "[]"
       and ev = "[WriteSchema ''tickets'', WriteSchema ''conversations'',
                  WriteSchema ''satisfaction_ratings'', WriteSchema ''time_entries'',
                  Send ''https://acme.freshdesk.com/api/v2/tickets''
                    [(''updated_since'', acme_start), (''order_by'', JStr ''updated_at''),
                     (''order_type'', JStr ''asc''),
                     (''include'', JStr ''requester,company,stats,description''),
                     (''per_page'', JInt 100), (''page'', JInt 1)],
                  Send (get_url_sub_ticket acme (JInt 8) ''conversations'') first_page]"]
  have a: "ticket_row 1 acme_server acme ''tickets'' acme_start ticket_7 [] =
     Some (None, [(''tickets'', JStr ''2019-06-01T00:00:00Z'')],
       [Send (get_url_sub_ticket acme (JInt 7) ''conversations'') first_page,
        WriteRecord ''conversations'' conversation_70,
        Send (get_url_sub_ticket acme (JInt 7) ''satisfaction_ratings'') first_page,
        Send (get_url_sub_ticket acme (JInt 7) ''time_entries'') first_page,
        UpdateState ''tickets'' (JStr ''2019-06-01T00:00:00Z''),
        WriteRecord ''tickets'' ticket_7_written,
        WriteState [(''tickets'', JStr ''2019-06-01T00:00:00Z'')]])"
    using recover sub_7_conversations sub_7_satisfaction_ratings sub_7_time_entries
    by (simp add: ticket_7_def update_state_def written_ticket_def ticket_7_written_def
        transform_dict_def entry_def rendered_def lower_def lower_char_def py_str_def)
  have b: "ticket_row 1 acme_server acme ''tickets'' acme_start (JObj (plain_ticket 8)) [] =
     Some (Some (HTTPError 400 JNull), [],
       [Send (get_url_sub_ticket acme (JInt 8) ''conversations'') first_page])"
    using fatal_1 sub_8_conversations by (simp add: plain_ticket_def)
  have c: "ticket_row 1 acme_server acme ''tickets'' acme_start (JObj (plain_ticket 9)) [] =
     Some (Some (HTTPError 400 JNull), [],
       [Send (get_url_sub_ticket acme (JInt 9) ''conversations'') first_page,
        Send (get_url_sub_ticket acme (JInt 9) ''satisfaction_ratings'') first_page])"
    using fatal_2 sub_9_conversations sub_9_satisfaction_ratings by (simp add: plain_ticket_def)
  have d: "ticket_row 1 acme_server acme ''tickets'' acme_start (JObj (plain_ticket 10)) [] =
     Some (Some (HTTPError 400 JNull), [],
       [Send (get_url_sub_ticket acme (JInt 10) ''conversations'') first_page,
        Send (get_url_sub_ticket acme (JInt 10) ''satisfaction_ratings'') first_page,
        Send (get_url_sub_ticket acme (JInt 10) ''time_entries'') first_page])"
    using fatal_3 sub_10_conversations sub_10_satisfaction_ratings sub_10_time_entries
    by (simp add: plain_ticket_def)
  have e: "sub_request 1 acme_server acme (JInt 7) ''satisfaction_ratings'' (ratings_row acme_start) []
     = Some (Some (HTTPError 403 JNull), [],
             [Send (get_url_sub_ticket acme (JInt 7) ''satisfaction_ratings'') first_page])"
    using first request_7_satisfaction_ratings by simp
  show ?thesis
    using a b c d e exits tickets_8_run by (simp add: acme_def)
qed

text \<open>
  C4 as stated fails: when the first page of conversations holds 100 rows and the
  request for the second page is answered with 403, the loop is recovered from, but the
  100 conversations of the first page have been written.
\<close>

theorem sub_resource_pages_counterexample:
  "sync_sub 2 busy_server acme (JInt 7) ''conversations'' [403] (sub_row ''conversations'' acme_start) []
     = Some (None, [],
         Send ''https://acme.freshdesk.com/api/v2/tickets/7/conversations'' first_page
         # replicate 100 (WriteRecord ''conversations'' conversation_70)
         @ [Send ''https://acme.freshdesk.com/api/v2/tickets/7/conversations''
              [(''per_page'', JInt 100), (''page'', JInt 2)]])"
  by code_simp

section \<open>Rows yielded and records written\<close>

lemma written_append [simp]: "written stream (xs @ ys) = written stream xs @ written stream ys"
  by (simp add: written_def)

lemma written_Nil [simp]: "written stream [] = []"
  by (simp add: written_def)

lemma written_transport: "list_all is_transport ev \<Longrightarrow> written stream ev = []"
proof (induction ev)
  case Nil
  then show ?case by simp
next
  case (Cons e ev)
  then show ?case by (cases e) (auto simp: written_def)
qed

lemma for_rows_consumed:
  assumes ok: "\<And>row s s' ev. body row s = Some (None, s', ev) \<Longrightarrow>
                 written stream ev = (if p row then [g row] else [])"
    and err: "\<And>row s e s' ev. body row s = Some (Some e, s', ev) \<Longrightarrow> written stream ev = []"
  shows "for_rows body rows s = Some (r, s', ev) \<Longrightarrow>
     \<exists>n. consumed body stream p g rows r ev n \<and> (r \<noteq> None \<longrightarrow> n < length rows)"
proof (induction rows arbitrary: s r s' ev)
  case Nil
  then show ?case by (simp add: emit_def consumed_def)
next
  case (Cons row rows)
  from Cons.prems have "seq (body row s) (for_rows body rows) = Some (r, s', ev)" by simp
  then show ?case
  proof (cases rule: seq_cases)
    case (raised e)
    then have "written stream ev = []" using err by simp
    with raised show ?thesis
      by (intro exI [of _ 0]) (auto simp: consumed_def)
  next
    case (passed s1 ev1 ev2)
    from Cons.IH [OF passed(2)] obtain n where n: "consumed body stream p g rows r ev2 n"
      "r \<noteq> None \<longrightarrow> n < length rows"
      by blast
    have w1: "written stream ev1 = (if p row then [g row] else [])" using ok passed(1) by simp
    have "consumed body stream p g (row # rows) r ev (Suc n)"
      unfolding consumed_def
    proof (intro conjI impI allI)
      show "Suc n \<le> length (row # rows)" using n(1) by (simp add: consumed_def)
      show "written stream ev = map g (filter p (take (Suc n) (row # rows)))"
        using n(1) w1 passed(3) by (simp add: consumed_def)
      show "Suc n = length (row # rows)" if "r = None" using n(1) that by (simp add: consumed_def)
      show "\<exists>s s' ev'. body ((row # rows) ! i) s = Some (None, s', ev')" if "i < Suc n" for i
      proof (cases i)
        case 0
        then show ?thesis using passed(1) by auto
      next
        case (Suc j)
        with that n(1) show ?thesis by (simp add: consumed_def)
      qed
      show "\<exists>e s s' ev'. r = Some e \<and> body ((row # rows) ! Suc n) s = Some (Some e, s', ev')"
        if "Suc n < length (row # rows)"
        using n(1) that by (simp add: consumed_def)
    qed
    with n(2) show ?thesis by (intro exI [of _ "Suc n"]) simp
  qed
qed

lemma consumed_shift:
  assumes first: "consumed body stream p g data None ev1 (length data)"
    and rest: "consumed body stream p g later r ev2 m"
  shows "consumed body stream p g (data @ later) r (ev1 @ ev2) (length data + m)"
  unfolding consumed_def
proof (intro conjI impI allI)
  show "length data + m \<le> length (data @ later)" using rest by (simp add: consumed_def)
  show "written stream (ev1 @ ev2) = map g (filter p (take (length data + m) (data @ later)))"
    using first rest by (simp add: consumed_def)
  show "length data + m = length (data @ later)" if "r = None"
    using rest that by (simp add: consumed_def)
  show "\<exists>s s' ev'. body ((data @ later) ! i) s = Some (None, s', ev')" if "i < length data + m" for i
  proof (cases "i < length data")
    case True
    then show ?thesis using first by (simp add: consumed_def nth_append)
  next
    case False
    with that have "i - length data < m" by simp
    with rest False show ?thesis by (simp add: consumed_def nth_append)
  qed
  show "\<exists>e s s' ev'. r = Some e \<and> body ((data @ later) ! (length data + m)) s = Some (Some e, s', ev')"
    if "length data + m < length (data @ later)"
    using rest that by (simp add: consumed_def nth_append)
qed

lemma consumed_prefix:
  assumes "consumed body stream p g data r ev n" "n < length data"
  shows "consumed body stream p g (data @ later) r ev n"
  using assms by (auto simp: consumed_def nth_append)

lemma gen_pages_yield_extends:
  "gen_pages fuel server url params page yield_row acc = Some (out, rows, sends) \<Longrightarrow>
     \<exists>later. rows = acc @ later"
proof (induction fuel arbitrary: params page acc sends)
  case 0
  then show ?case by simp
next
  case (Suc fuel)
  let ?ps = "AList.update ''page'' (JInt (int page)) params"
  from Suc.prems obtain res ev0 where req: "request url ?ps (server url ?ps) = Some (res, ev0)"
    by (auto simp: Let_def split: option.splits)
  show ?case
  proof (cases res)
    case (Inl e)
    with Suc.prems req show ?thesis by (simp add: Let_def)
  next
    case (Inr resp)
    show ?thesis
    proof (cases "py_iter (content resp)")
      case (Inl e)
      with Suc.prems req Inr show ?thesis by (simp add: Let_def)
    next
      case data: (Inr data)
      show ?thesis
      proof (cases "length data = PER_PAGE")
        case False
        with Suc.prems req Inr data show ?thesis
          by (auto simp: Let_def for_rows_yield_row emit_def)
      next
        case True
        with Suc.prems req Inr data obtain sends' where
          "gen_pages fuel server url ?ps (page + 1) yield_row (acc @ data) = Some (out, rows, sends')"
          by (auto simp: Let_def for_rows_yield_row emit_def split: option.splits)
        from Suc.IH [OF this] show ?thesis by auto
      qed
    qed
  qed
qed

lemma gen_pages_consumed:
  assumes ok: "\<And>row s s' ev. body row s = Some (None, s', ev) \<Longrightarrow>
                 written stream ev = (if p row then [g row] else [])"
    and err: "\<And>row s e s' ev. body row s = Some (Some e, s', ev) \<Longrightarrow> written stream ev = []"
  shows "gen_pages fuel server url params page yield_row acc = Some (out, rows, sends) \<Longrightarrow>
         gen_pages fuel server url params page body s = Some (r, s', ev) \<Longrightarrow>
         \<exists>n. consumed body stream p g (drop (length acc) rows) r ev n"
proof (induction fuel arbitrary: params page acc s r s' ev sends)
  case 0
  then show ?case by simp
next
  case (Suc fuel)
  let ?ps = "AList.update ''page'' (JInt (int page)) params"
  from Suc.prems(2) obtain res ev0 where req: "request url ?ps (server url ?ps) = Some (res, ev0)"
    by (auto simp: Let_def split: option.splits)
  have w0: "written stream ev0 = []" using request_transport [OF req] by (rule written_transport)
  show ?case
  proof (cases res)
    case (Inl e)
    with Suc.prems req w0 show ?thesis
      by (intro exI [of _ 0]) (auto simp: Let_def consumed_def)
  next
    case (Inr resp)
    show ?thesis
    proof (cases "py_iter (content resp)")
      case (Inl e)
      with Suc.prems req w0 Inr show ?thesis
        by (intro exI [of _ 0]) (auto simp: Let_def consumed_def)
    next
      case data: (Inr data)
      from Suc.prems(1) req Inr data
      have yrun: "(if length data = PER_PAGE
                   then gen_pages fuel server url ?ps (page + 1) yield_row (acc @ data)
                   else emit [] (acc @ data)) = Some (out, rows, drop (length ev0) sends)"
        by (auto simp: Let_def for_rows_yield_row emit_def split: option.splits if_splits)
      from Suc.prems(2) req Inr data
      obtain r1 s1 ev1 where rows1: "for_rows body data s = Some (r1, s1, ev1)"
        and rest: "seq (Some (r1, s1, ev0 @ ev1))
                     (\<lambda>s'. if length data = PER_PAGE
                           then gen_pages fuel server url ?ps (page + 1) body s' else emit [] s')
                   = Some (r, s', ev)"
        by (auto simp: Let_def split: option.splits)
      have "\<exists>n. consumed body stream p g data r1 ev1 n \<and> (r1 \<noteq> None \<longrightarrow> n < length data)"
      proof (rule for_rows_consumed [where body = body and stream = stream and p = p and g = g,
            OF _ _ rows1])
        fix row s s' ev
        assume "body row s = Some (None, s', ev)"
        then show "written stream ev = (if p row then [g row] else [])" by (rule ok)
      next
        fix row s e s' ev
        assume "body row s = Some (Some e, s', ev)"
        then show "written stream ev = []" by (rule err)
      qed
      then obtain n where n: "consumed body stream p g data r1 ev1 n"
        "r1 \<noteq> None \<longrightarrow> n < length data"
        by blast
      have n0: "consumed body stream p g data r1 (ev0 @ ev1) n"
        using n(1) w0 by (simp add: consumed_def)
      from yrun obtain later where rows: "rows = acc @ data @ later"
        by (cases "length data = PER_PAGE")
           (auto simp: emit_def dest!: gen_pages_yield_extends)
      show ?thesis
      proof (cases r1)
        case (Some e)
        with rest have "ev = ev0 @ ev1" "r = r1" by simp_all
        with n0 n(2) Some rows show ?thesis
          by (intro exI [of _ n]) (simp add: consumed_prefix)
      next
        case None
        with n0 have full: "consumed body stream p g data None (ev0 @ ev1) (length data)"
          by (simp add: consumed_def)
        show ?thesis
        proof (cases "length data = PER_PAGE")
          case False
          with yrun rows have "later = []" by (simp add: emit_def)
          moreover from rest None False have "ev = ev0 @ ev1" "r = None" by (simp_all add: emit_def)
          ultimately show ?thesis using full rows by (intro exI [of _ "length data"]) simp
        next
          case True
          with yrun have y': "gen_pages fuel server url ?ps (page + 1) yield_row (acc @ data)
                                = Some (out, rows, drop (length ev0) sends)" by simp
          from rest None True obtain ev2 where
            b': "gen_pages fuel server url ?ps (page + 1) body s1 = Some (r, s', ev2)"
            and ev: "ev = (ev0 @ ev1) @ ev2"
            by (auto split: option.splits)
          from Suc.IH [OF y' b'] obtain m where
            "consumed body stream p g (drop (length (acc @ data)) rows) r ev2 m"
            by blast
          with rows have m: "consumed body stream p g later r ev2 m" by simp
          from consumed_shift [OF full m] ev rows show ?thesis
            by (intro exI [of _ "length data + m"]) simp
        qed
      qed
    qed
  qed
qed

lemma gen_request_consumed:
  assumes "\<And>row s s' ev. body row s = Some (None, s', ev) \<Longrightarrow>
             written stream ev = (if p row then [g row] else [])"
    and "\<And>row s e s' ev. body row s = Some (Some e, s', ev) \<Longrightarrow> written stream ev = []"
    and y: "gen_request fuel server url params yield_row [] = Some (out, rows, sends)"
    and b: "gen_request fuel server url params body s = Some (r, s', ev)"
  shows "\<exists>n. consumed body stream p g rows r ev n"
proof -
  have "\<exists>n. consumed body stream p g (drop (length ([]::json list)) rows) r ev n"
  proof (rule gen_pages_consumed [where body = body and stream = stream and p = p and g = g,
        OF _ _ y [unfolded gen_request_def] b [unfolded gen_request_def]])
    fix row s s' ev
    assume "body row s = Some (None, s', ev)"
    then show "written stream ev = (if p row then [g row] else [])" by (rule assms(1))
  next
    fix row s e s' ev
    assume "body row s = Some (Some e, s', ev)"
    then show "written stream ev = []" by (rule assms(2))
  qed
  then show ?thesis by simp
qed

lemma time_filtered_row_written:
  "time_filtered_row entity start row s = Some (r, s', ev) \<Longrightarrow>
     written entity ev = (if r = None \<and> is_fresh start row then [flat_written row] else [])"
  by (auto simp: time_filtered_row_def raise_def emit_def written_def is_fresh_def flat_written_def
      py_getitem_def py_items_def
      split: sum.splits json.splits option.splits bool.splits)

lemma sub_row_written:
  "sub_row stream start row s = Some (r, s', ev) \<Longrightarrow>
     written stream' ev = (if r = None \<and> is_fresh start row \<and> stream' = stream then [row] else [])"
  by (auto simp: sub_row_def raise_def emit_def written_def is_fresh_def split: sum.splits)

lemma ratings_row_written:
  "ratings_row start row s = Some (r, s', ev) \<Longrightarrow>
     written stream' ev = (if r = None \<and> is_fresh start row \<and> stream' = ''satisfaction_ratings''
                           then [ratings_written row] else [])"
  by (auto simp: ratings_row_def sub_row_def raise_def emit_def written_def is_fresh_def
      ratings_written_def py_getitem_def py_items_def update_conv'
      split: sum.splits json.splits option.splits)

lemma sync_sub_written:
  assumes "sync_sub fuel server CONFIG ident entity recovered body S = Some (r, S', ev)"
    and "\<And>row s r s' ev. body row s = Some (r, s', ev) \<Longrightarrow> written stream ev = []"
  shows "written stream ev = []"
proof (rule sync_sub_events [where P = "\<lambda>ev. written stream ev = []" and body = body,
      OF _ _ _ _ assms(1)])
  fix ev
  assume "list_all is_transport ev"
  then show "written stream ev = []" by (rule written_transport)
next
  fix row s r s' ev
  assume "body row s = Some (r, s', ev)"
  then show "written stream ev = []" by (rule assms(2))
qed simp_all

lemma ticket_row_written:
  assumes run: "ticket_row fuel server CONFIG ns start row STATE = Some (r, S', ev)"
  shows "written ''tickets'' ev = (if r = None then [as_written row] else [])"
proof (cases "py_getitem row ''id''")
  case (Inl e)
  with run show ?thesis by (auto simp: ticket_row_def raise_def)
next
  case (Inr ident)
  then obtain kvs where row: "row = JObj kvs" and ident: "map_of kvs ''id'' = Some ident"
    by (cases row) (auto simp: py_getitem_def split: option.splits)
  show ?thesis
  proof (cases "map_of kvs ''custom_fields''")
    case None
    with run row ident show ?thesis
      by (auto simp: ticket_row_def py_getitem_def delete_conv' raise_def)
  next
    case (Some cf)
    show ?thesis
    proof (cases "py_items cf")
      case (Inl e)
      with run row ident Some show ?thesis
        by (auto simp: ticket_row_def py_getitem_def delete_conv' raise_def)
    next
      case (Inr d)
      then have cf: "map_of kvs ''custom_fields'' = Some (JObj d)"
        using Some by (cases cf) (auto simp: py_items_def)
      let ?fin = "\<lambda>STATE. case map_of kvs ''updated_at'' of
                     None \<Rightarrow> raise (KeyError ''updated_at'') STATE
                   | Some bookmark \<Rightarrow>
                       emit [UpdateState ns bookmark, WriteRecord ''tickets'' (written_ticket kvs d),
                             WriteState (update_state STATE ns bookmark)]
                         (update_state STATE ns bookmark)"
      have sub: "written ''tickets'' ev = []"
        if "sync_sub fuel server CONFIG ident entity recovered (sub_row stream start) S = Some (r, S', ev)"
          "stream \<noteq> ''tickets''"
        for entity recovered stream S r S' ev
        using that(1)
      proof (rule sync_sub_written)
        fix row s r s' ev
        assume "sub_row stream start row s = Some (r, s', ev)"
        from sub_row_written [OF this, of "''tickets''"] that(2)
        show "written ''tickets'' ev = []" by simp
      qed
      have rat: "written ''tickets'' ev = []"
        if "sync_sub fuel server CONFIG ident entity recovered (ratings_row start) S = Some (r, S', ev)"
        for entity recovered S r S' ev
        using that
      proof (rule sync_sub_written)
        fix row s r s' ev
        assume "ratings_row start row s = Some (r, s', ev)"
        from ratings_row_written [OF this, of "''tickets''"]
        show "written ''tickets'' ev = []" by simp
      qed
      have fin: "written ''tickets'' ev = (if r = None then [as_written row] else [])"
        if "?fin S = Some (r, S', ev)" for S r S' ev
        using that row cf
        by (auto simp: raise_def emit_def written_def as_written_def split: option.splits)
      from run row ident cf have run':
        "seq (sync_sub fuel server CONFIG ident ''conversations'' [403] (sub_row ''conversations'' start) STATE)
        (\<lambda>STATE.
         seq (sync_sub fuel server CONFIG ident ''satisfaction_ratings'' [403] (ratings_row start) STATE)
        (\<lambda>STATE.
         seq (sync_sub fuel server CONFIG ident ''time_entries'' [403, 404] (sub_row ''time_entries'' start) STATE)
           ?fin)) = Some (r, S', ev)"
        by (simp add: ticket_row_unfold)
      from run' show ?thesis
      proof (cases rule: seq_cases)
        case (raised e)
        then show ?thesis using sub by simp
      next
        case p1: (passed s1 ev1 ev2)
        have z1: "written ''tickets'' ev1 = []" using sub p1(1) by simp
        from p1(2) show ?thesis
        proof (cases rule: seq_cases)
          case (raised e)
          then show ?thesis using rat z1 p1(3) by simp
        next
          case p2: (passed s2 ev3 ev4)
          have z2: "written ''tickets'' ev3 = []" using rat p2(1) by simp
          from p2(2) show ?thesis
          proof (cases rule: seq_cases)
            case (raised e)
            then show ?thesis using sub z1 z2 p1(3) p2(3) by simp
          next
            case p3: (passed s3 ev5 ev6)
            have z3: "written ''tickets'' ev5 = []" using sub p3(1) by simp
            from fin [OF p3(2)] z1 z2 z3 p1(3) p2(3) p3(3) show ?thesis by simp
          qed
        qed
      qed
    qed
  qed
qed

lemma consumed_cong_result:
  "consumed body stream p g rows r ev n \<Longrightarrow> written stream ev' = written stream ev \<Longrightarrow>
     consumed body stream p g rows r ev' n"
  by (simp add: consumed_def)

lemma sync_time_filtered_consumed:
  assumes url: "get_url CONFIG entity = Inr url"
    and y: "gen_request fuel server url [] yield_row [] = Some (out, rows, sends)"
    and run: "sync_time_filtered fuel server CONFIG entity STATE = Some (r, S', ev)"
  shows "\<exists>n. consumed (time_filtered_row entity (get_start CONFIG STATE entity)) entity
                (is_fresh (get_start CONFIG STATE entity)) flat_written rows r ev n"
proof -
  let ?start = "get_start CONFIG STATE entity"
  from run url obtain s1 ev1 where g:
    "gen_request fuel server url [] (time_filtered_row entity ?start) STATE = Some (r, s1, ev1)"
    and ev: "written entity ev = written entity ev1"
    by (auto simp: sync_time_filtered_def Let_def seq_def emit_def written_def
        split: option.splits prod.splits)
  have "\<exists>n. consumed (time_filtered_row entity ?start) entity (is_fresh ?start) flat_written rows r ev1 n"
  proof (rule gen_request_consumed [where body = "time_filtered_row entity ?start" and stream = entity
        and p = "is_fresh ?start" and g = flat_written, OF _ _ y g])
    fix row s s' ev
    assume "time_filtered_row entity ?start row s = Some (None, s', ev)"
    from time_filtered_row_written [OF this]
    show "written entity ev = (if is_fresh ?start row then [flat_written row] else [])" by simp
  next
    fix row s e s' ev
    assume "time_filtered_row entity ?start row s = Some (Some e, s', ev)"
    from time_filtered_row_written [OF this] show "written entity ev = []" by simp
  qed
  with ev show ?thesis by (auto intro: consumed_cong_result)
qed

lemma sync_tickets_by_filter_consumed:
  assumes url: "get_url CONFIG ''tickets'' = Inr url"
    and y: "gen_request fuel server url
              (ticket_params (get_start CONFIG STATE (state_entity predefined_filter)) predefined_filter)
              yield_row [] = Some (out, rows, sends)"
    and run: "sync_tickets_by_filter fuel server CONFIG predefined_filter STATE = Some (r, S', ev)"
  shows "\<exists>n. consumed (ticket_row fuel server CONFIG (state_entity predefined_filter)
                          (get_start CONFIG STATE (state_entity predefined_filter)))
                ''tickets'' (\<lambda>row. True) as_written rows r ev n"
proof -
  let ?ns = "state_entity predefined_filter"
  let ?start = "get_start CONFIG STATE ?ns"
  from run url have g:
    "gen_request fuel server url (ticket_params ?start predefined_filter)
       (ticket_row fuel server CONFIG ?ns ?start) STATE = Some (r, S', ev)"
    by (simp add: sync_tickets_by_filter_def Let_def)
  show ?thesis
  proof (rule gen_request_consumed [where body = "ticket_row fuel server CONFIG ?ns ?start"
        and stream = "''tickets''" and p = "\<lambda>row. True" and g = as_written, OF _ _ y g])
    fix row s s' ev
    assume "ticket_row fuel server CONFIG ?ns ?start row s = Some (None, s', ev)"
    from ticket_row_written [OF this]
    show "written ''tickets'' ev = (if True then [as_written row] else [])" by simp
  next
    fix row s e s' ev
    assume "ticket_row fuel server CONFIG ?ns ?start row s = Some (Some e, s', ev)"
    from ticket_row_written [OF this] show "written ''tickets'' ev = []" by simp
  qed
qed

lemma sub_request_consumed:
  assumes y: "gen_request fuel server (get_url_sub_ticket CONFIG ident entity) [] yield_row []
                = Some (out, rows, sends)"
  shows "sub_request fuel server CONFIG ident entity (sub_row stream start) S = Some (r, S', ev) \<Longrightarrow>
           \<exists>n. consumed (sub_row stream start) stream (is_fresh start) (\<lambda>row. row) rows r ev n"
    and "sub_request fuel server CONFIG ident entity (ratings_row start) S = Some (r, S', ev) \<Longrightarrow>
           \<exists>n. consumed (ratings_row start) ''satisfaction_ratings'' (is_fresh start) ratings_written
                  rows r ev n"
proof -
  assume b: "sub_request fuel server CONFIG ident entity (sub_row stream start) S = Some (r, S', ev)"
  show "\<exists>n. consumed (sub_row stream start) stream (is_fresh start) (\<lambda>row. row) rows r ev n"
  proof (rule gen_request_consumed [where body = "sub_row stream start" and stream = stream
        and p = "is_fresh start" and g = "\<lambda>row. row", OF _ _ y b [unfolded sub_request_def]])
    fix row s s' ev
    assume "sub_row stream start row s = Some (None, s', ev)"
    from sub_row_written [OF this, of stream]
    show "written stream ev = (if is_fresh start row then [row] else [])" by simp
  next
    fix row s e s' ev
    assume "sub_row stream start row s = Some (Some e, s', ev)"
    from sub_row_written [OF this, of stream] show "written stream ev = []" by simp
  qed
next
  assume b: "sub_request fuel server CONFIG ident entity (ratings_row start) S = Some (r, S', ev)"
  show "\<exists>n. consumed (ratings_row start) ''satisfaction_ratings'' (is_fresh start) ratings_written
               rows r ev n"
  proof (rule gen_request_consumed [where body = "ratings_row start"
        and stream = "''satisfaction_ratings''" and p = "is_fresh start" and g = ratings_written,
        OF _ _ y b [unfolded sub_request_def]])
    fix row s s' ev
    assume "ratings_row start row s = Some (None, s', ev)"
    from ratings_row_written [OF this, of "''satisfaction_ratings''"]
    show "written ''satisfaction_ratings'' ev = (if is_fresh start row then [ratings_written row] else [])"
      by simp
  next
    fix row s e s' ev
    assume "ratings_row start row s = Some (Some e, s', ev)"
    from ratings_row_written [OF this, of "''satisfaction_ratings''"]
    show "written ''satisfaction_ratings'' ev = []" by simp
  qed
qed

lemma is_fresh_str:
  "py_getitem row ''updated_at'' = Inr (JStr b) \<Longrightarrow> is_fresh (JStr w) row = (w \<le> b)"
  by (simp add: is_fresh_def)

lemma two_roles_yielded:
  "gen_request 1 (serve_pages [[role_1, role_2]]) roles_url [] yield_row []
     = Some (None, [role_1, role_2], [Send roles_url first_page])"
  by code_simp

lemma two_roles_run:
  "sync_time_filtered 1 (serve_pages [[role_1, role_2]]) acme ''roles'' []
     = Some (None, [(''roles'', JStr ''2021-06-01T00:00:00Z'')],
         [WriteSchema ''roles'', Send roles_url first_page,
          UpdateState ''roles'' (JStr ''2021-01-01T00:00:00Z''), WriteRecord ''roles'' role_1,
          UpdateState ''roles'' (JStr ''2021-06-01T00:00:00Z''), WriteRecord ''roles'' role_2,
          WriteState [(''roles'', JStr ''2021-06-01T00:00:00Z'')]])"
  by code_simp

lemma two_roles_rerun:
  "sync_time_filtered 1 (serve_pages [[role_1, role_2]]) acme ''roles''
       [(''roles'', JStr ''2021-06-01T00:00:00Z'')]
     = Some (None, [(''roles'', JStr ''2021-06-01T00:00:00Z'')],
         [WriteSchema ''roles'', Send roles_url first_page,
          UpdateState ''roles'' (JStr ''2021-06-01T00:00:00Z''), WriteRecord ''roles'' role_2,
          WriteState [(''roles'', JStr ''2021-06-01T00:00:00Z'')]])"
  by code_simp

lemma conversations_7_yielded:
  "gen_request 1 acme_server (get_url_sub_ticket acme (JInt 7) ''conversations'') [] yield_row []
     = Some (None, [conversation_70],
             [Send ''https://acme.freshdesk.com/api/v2/tickets/7/conversations'' first_page])"
  by code_simp

lemma conversations_7_request:
  "sub_request 1 acme_server acme (JInt 7) ''conversations'' (sub_row ''conversations'' acme_start) []
     = Some (None, [],
             [Send ''https://acme.freshdesk.com/api/v2/tickets/7/conversations'' first_page,
              WriteRecord ''conversations'' conversation_70])"
  by code_simp

lemma ratings_yielded:
  "gen_request 1 (serve_pages [[rating_30]]) (get_url_sub_ticket acme (JInt 7) ''satisfaction_ratings'')
       [] yield_row []
     = Some (None, [rating_30],
             [Send ''https://acme.freshdesk.com/api/v2/tickets/7/satisfaction_ratings'' first_page])"
  by code_simp

lemma ratings_request:
  "sub_request 1 (serve_pages [[rating_30]]) acme (JInt 7) ''satisfaction_ratings''
       (ratings_row acme_start) []
     = Some (None, [],
             [Send ''https://acme.freshdesk.com/api/v2/tickets/7/satisfaction_ratings'' first_page,
              WriteRecord ''satisfaction_ratings''
                (JObj [(''id'', JInt 30),
                       (''ratings'', JList [JObj [(''question'', JStr ''default_question''),
                                                  (''value'', JInt 103)]]),
                       (''updated_at'', JStr ''2021-04-01T00:00:00Z'')])])"
  by code_simp

lemma tickets_7_yielded:
  "gen_request 1 acme_server tickets_url (ticket_params acme_start None) yield_row []
     = Some (None, [ticket_7], [Send tickets_url tickets_first_page])"
  by code_simp

lemma tickets_8_yielded:
  "gen_request 1 acme_server_8 tickets_url (ticket_params acme_start None) yield_row []
     = Some (None, [JObj (plain_ticket 8)], [Send tickets_url tickets_first_page])"
  by code_simp

lemma tickets_8_pass:
  "sync_tickets_by_filter 1 acme_server_8 acme None []
     = Some (Some (HTTPError 400 JNull), [],
             [Send tickets_url tickets_first_page,
              Send ''https://acme.freshdesk.com/api/v2/tickets/8/conversations'' first_page])"
  by code_simp




lemma acme_urls:
  "get_url acme ''roles'' = Inr roles_url" "get_url acme ''tickets'' = Inr tickets_url"
  "get_start acme [] ''tickets'' = acme_start" "state_entity None = ''tickets''"
  by code_simp+

section \<open>Which records a run writes\<close>

text \<open>
  C2, as amended. Of the rows the API returns for a flat entity, a run writes those whose
  bookmark is not below the starting watermark of the entity, each as \<open>flat_written\<close>
  gives it, in the order received: all of them when the run ends, those among the first
  \<open>n\<close> rows when it raises at row \<open>n\<close>. The same holds of each loop over a
  sub-resource of a ticket, with the start of the ticket pass: conversations and time
  entries are written as they came, satisfaction ratings as \<open>ratings_written\<close> gives
  them; so every sub-resource record a ticket pass writes has a bookmark not below the
  start of the pass. A bookmark equal to the start is not below it: between two strings
  the comparison is \<open>start \<le> bookmark\<close>. This holds in every run, and so in a second run
  on the state the first one left; ticket records are written without a comparison and are
  not spoken of here.
\<close>

theorem only_fresh_records_emitted:
  "(get_url CONFIG entity = Inr url
    \<and> gen_request fuel server url [] yield_row [] = Some (out, rows, sends)
    \<and> sync_time_filtered fuel server CONFIG entity STATE = Some (r, S', ev)
    \<longrightarrow> (\<exists>n\<le>length rows.
          written entity ev
            = map flat_written (filter (is_fresh (get_start CONFIG STATE entity)) (take n rows))
          \<and> (r = None \<longrightarrow> n = length rows)))
   \<and> (gen_request fuel server (get_url_sub_ticket CONFIG ident sub) [] yield_row []
        = Some (out, rows, sends)
    \<and> sub_request fuel server CONFIG ident sub (sub_row stream start) STATE = Some (r, S', ev)
    \<longrightarrow> (\<exists>n\<le>length rows.
          written stream ev = filter (is_fresh start) (take n rows)
          \<and> (r = None \<longrightarrow> n = length rows)))
   \<and> (gen_request fuel server (get_url_sub_ticket CONFIG ident sub) [] yield_row []
        = Some (out, rows, sends)
    \<and> sub_request fuel server CONFIG ident sub (ratings_row start) STATE = Some (r, S', ev)
    \<longrightarrow> (\<exists>n\<le>length rows.
          written ''satisfaction_ratings'' ev
            = map ratings_written (filter (is_fresh start) (take n rows))
          \<and> (r = None \<longrightarrow> n = length rows)))
   \<and> (sync_tickets_by_filter fuel server CONFIG predefined_filter STATE = Some (r, S', ev)
    \<longrightarrow> list_all (fresh_event sub_streams (get_start CONFIG STATE (state_entity predefined_filter))) ev)
   \<and> (py_getitem row ''updated_at'' = Inr (JStr b) \<longrightarrow> is_fresh (JStr w) row = (w \<le> b))"
proof (intro conjI impI)
  assume a: "get_url CONFIG entity = Inr url
    \<and> gen_request fuel server url [] yield_row [] = Some (out, rows, sends)
    \<and> sync_time_filtered fuel server CONFIG entity STATE = Some (r, S', ev)"
  then obtain n where "consumed (time_filtered_row entity (get_start CONFIG STATE entity)) entity
      (is_fresh (get_start CONFIG STATE entity)) flat_written rows r ev n"
    using sync_time_filtered_consumed [of CONFIG entity url fuel server out rows sends STATE r S' ev]
    by blast
  then show "\<exists>n\<le>length rows.
          written entity ev
            = map flat_written (filter (is_fresh (get_start CONFIG STATE entity)) (take n rows))
          \<and> (r = None \<longrightarrow> n = length rows)"
    by (auto simp: consumed_def)
next
  assume a: "gen_request fuel server (get_url_sub_ticket CONFIG ident sub) [] yield_row []
        = Some (out, rows, sends)
    \<and> sub_request fuel server CONFIG ident sub (sub_row stream start) STATE = Some (r, S', ev)"
  then obtain n where "consumed (sub_row stream start) stream (is_fresh start) (\<lambda>row. row) rows r ev n"
    using sub_request_consumed(1) [of fuel server CONFIG ident sub out rows sends stream start STATE r S' ev]
    by blast
  then show "\<exists>n\<le>length rows.
          written stream ev = filter (is_fresh start) (take n rows)
          \<and> (r = None \<longrightarrow> n = length rows)"
    by (auto simp: consumed_def)
next
  assume a: "gen_request fuel server (get_url_sub_ticket CONFIG ident sub) [] yield_row []
        = Some (out, rows, sends)
    \<and> sub_request fuel server CONFIG ident sub (ratings_row start) STATE = Some (r, S', ev)"
  then obtain n where "consumed (ratings_row start) ''satisfaction_ratings'' (is_fresh start)
      ratings_written rows r ev n"
    using sub_request_consumed(2) [of fuel server CONFIG ident sub out rows sends start STATE r S' ev]
    by blast
  then show "\<exists>n\<le>length rows.
          written ''satisfaction_ratings'' ev
            = map ratings_written (filter (is_fresh start) (take n rows))
          \<and> (r = None \<longrightarrow> n = length rows)"
    by (auto simp: consumed_def)
next
  assume "sync_tickets_by_filter fuel server CONFIG predefined_filter STATE = Some (r, S', ev)"
  then show "list_all (fresh_event sub_streams (get_start CONFIG STATE (state_entity predefined_filter))) ev"
    by (rule sync_tickets_by_filter_events)
      (simp_all add: fresh_transport sub_row_fresh sub_streams_def)
next
  assume "py_getitem row ''updated_at'' = Inr (JStr b)"
  then show "is_fresh (JStr w) row = (w \<le> b)" by (rule is_fresh_str)
qed


lemma two_roles_fresh:
  "get_start acme [(''roles'', JStr ''2021-06-01T00:00:00Z'')] ''roles'' = JStr ''2021-06-01T00:00:00Z''"
  "map flat_written (filter (is_fresh (JStr ''2021-06-01T00:00:00Z'')) [role_1, role_2]) = [role_2]"
  "filter (is_fresh acme_start) [conversation_70] = [conversation_70]"
  "map ratings_written (filter (is_fresh acme_start) [rating_30])
     = [JObj [(''id'', JInt 30),
              (''ratings'', JList [JObj [(''question'', JStr ''default_question''), (''value'', JInt 103)]]),
              (''updated_at'', JStr ''2021-04-01T00:00:00Z'')]]"
  "py_getitem role_1 ''updated_at'' = Inr (JStr ''2021-01-01T00:00:00Z'')"
  by code_simp+

theorem only_fresh_records_emitted_witness:
  "gen_request 1 (serve_pages [[role_1, role_2]]) roles_url [] yield_row []
     = Some (None, [role_1, role_2], [Send roles_url first_page])
   \<and> sync_time_filtered 1 (serve_pages [[role_1, role_2]]) acme ''roles''
       [(''roles'', JStr ''2021-06-01T00:00:00Z'')]
     = Some (None, [(''roles'', JStr ''2021-06-01T00:00:00Z'')],
         [WriteSchema ''roles'', Send roles_url first_page,
          UpdateState ''roles'' (JStr ''2021-06-01T00:00:00Z''), WriteRecord ''roles'' role_2,
          WriteState [(''roles'', JStr ''2021-06-01T00:00:00Z'')]])
   \<and> written ''roles''
         [WriteSchema ''roles'', Send roles_url first_page,
          UpdateState ''roles'' (JStr ''2021-06-01T00:00:00Z''), WriteRecord ''roles'' role_2,
          WriteState [(''roles'', JStr ''2021-06-01T00:00:00Z'')]]
       = [role_2]
   \<and> sub_request 1 acme_server acme (JInt 7) ''conversations'' (sub_row ''conversations'' acme_start) []
     = Some (None, [],
             [Send ''https://acme.freshdesk.com/api/v2/tickets/7/conversations'' first_page,
              WriteRecord ''conversations'' conversation_70])
   \<and> written ''conversations''
         [Send ''https://acme.freshdesk.com/api/v2/tickets/7/conversations'' first_page,
          WriteRecord ''conversations'' conversation_70]
       = [conversation_70]
   \<and> sub_request 1 (serve_pages [[rating_30]]) acme (JInt 7) ''satisfaction_ratings''
       (ratings_row acme_start) []
     = Some (None, [],
             [Send ''https://acme.freshdesk.com/api/v2/tickets/7/satisfaction_ratings'' first_page,
              WriteRecord ''satisfaction_ratings''
                (JObj [(''id'', JInt 30),
                       (''ratings'', JList [JObj [(''question'', JStr ''default_question''),
                                                  (''value'', JInt 103)]]),
                       (''updated_at'', JStr ''2021-04-01T00:00:00Z'')])])
   \<and> written ''satisfaction_ratings''
         [Send ''https://acme.freshdesk.com/api/v2/tickets/7/satisfaction_ratings'' first_page,
          WriteRecord ''satisfaction_ratings''
            (JObj [(''id'', JInt 30),
                   (''ratings'', JList [JObj [(''question'', JStr ''default_question''),
                                              (''value'', JInt 103)]]),
                   (''updated_at'', JStr ''2021-04-01T00:00:00Z'')])]
       = [JObj [(''id'', JInt 30),
                (''ratings'', JList [JObj [(''question'', JStr ''default_question''), (''value'', JInt 103)]]),
                (''updated_at'', JStr ''2021-04-01T00:00:00Z'')]]
   \<and> sync_tickets_by_filter 1 acme_server acme None []
       = Some (None, [(''tickets'', JStr ''2019-06-01T00:00:00Z'')], tickets_trace)
   \<and> list_all (fresh_event sub_streams acme_start) tickets_trace
   \<and> is_fresh (JStr ''2021-01-01T00:00:00Z'') role_1"
  using only_fresh_records_emitted
    [where CONFIG = acme and entity = "''roles''" and url = roles_url and fuel = 1
       and server = "serve_pages [[role_1, role_2]]" and out = None and rows = "[role_1, role_2]"
       and sends = "[Send roles_url first_page]"
       and STATE = "[(''roles'', JStr ''2021-06-01T00:00:00Z'')]" and r = None
       and S' = "[(''roles'', JStr ''2021-06-01T00:00:00Z'')]"
       and ev = "[WriteSchema ''roles'', Send roles_url first_page,
          UpdateState ''roles'' (JStr ''2021-06-01T00:00:00Z''), WriteRecord ''roles'' role_2,
          WriteState [(''roles'', JStr ''2021-06-01T00:00:00Z'')]]"
       and row = role_1 and b = "''2021-01-01T00:00:00Z''" and w = "''2021-01-01T00:00:00Z''"]
    only_fresh_records_emitted
    [where CONFIG = acme and ident = "JInt 7" and sub = "''conversations''" and fuel = 1
       and server = acme_server and out = None and rows = "[conversation_70]"
       and sends = "[Send ''https://acme.freshdesk.com/api/v2/tickets/7/conversations'' first_page]"
       and stream = "''conversations''" and start = acme_start and STATE = "[]" and r = None
       and S' = "[]"
       and ev = "[Send ''https://acme.freshdesk.com/api/v2/tickets/7/conversations'' first_page,
                  WriteRecord ''conversations'' conversation_70]"]
    only_fresh_records_emitted
    [where CONFIG = acme and ident = "JInt 7" and sub = "''satisfaction_ratings''" and fuel = 1
       and server = "serve_pages [[rating_30]]" and out = None and rows = "[rating_30]"
       and sends = "[Send ''https://acme.freshdesk.com/api/v2/tickets/7/satisfaction_ratings'' first_page]"
       and start = acme_start and STATE = "[]" and r = None and S' = "[]"
       and ev = "[Send ''https://acme.freshdesk.com/api/v2/tickets/7/satisfaction_ratings'' first_page,
          WriteRecord ''satisfaction_ratings''
            (JObj [(''id'', JInt 30),
                   (''ratings'', JList [JObj [(''question'', JStr ''default_question''),
                                              (''value'', JInt 103)]]),
                   (''updated_at'', JStr ''2021-04-01T00:00:00Z'')])]"]
    only_fresh_records_emitted
    [where CONFIG = acme and fuel = 1 and server = acme_server and predefined_filter = None
       and STATE = "[]" and r = None and S' = "[(''tickets'', JStr ''2019-06-01T00:00:00Z'')]"
       and ev = tickets_trace]
    acme_urls two_roles_yielded two_roles_rerun two_roles_fresh conversations_7_yielded
    conversations_7_request ratings_yielded ratings_request tickets_run
  by simp

text \<open>
  C2 as stated fails: the first run leaves the role's bookmark as watermark, and the
  second run, on that state and the same server, writes the role again.
\<close>

theorem rerun_emits_again_counterexample:
  "sync_time_filtered 1 acme_server acme ''roles'' [] = Some (None, roles_state, roles_trace)
   \<and> sync_time_filtered 1 acme_server acme ''roles'' roles_state = Some (None, roles_state, roles_trace)
   \<and> roles_trace ! 3 = WriteRecord ''roles'' role_1"
  using roles_run roles_rerun by (simp add: roles_trace_def)

section \<open>Tickets are written without a comparison\<close>


text \<open>
  C9, as amended. A ticket pass asks for the tickets with \<open>updated_since\<close> set to its
  start, and of the tickets the API returns it writes each one, as \<open>as_written\<close>
  gives it and in the order received, with no comparison of its bookmark: all of them
  when the pass ends, the first \<open>n\<close> when \<open>ticket_row\<close> raises on ticket \<open>n\<close>,
  which ends the pass. A ticket that has an id, custom fields and a bookmark is written
  whenever its three sub-resource loops end or are recovered from, whatever its bookmark.
  The loop bodies for flat entities and for sub-resources do compare: a row whose bookmark
  is below \<open>start\<close> is passed over.
\<close>

theorem tickets_emitted_without_comparison:
  "(get_url CONFIG ''tickets'' = Inr url
    \<and> gen_request fuel server url
         (ticket_params (get_start CONFIG STATE (state_entity predefined_filter)) predefined_filter)
         yield_row [] = Some (out, rows, sends)
    \<and> sync_tickets_by_filter fuel server CONFIG predefined_filter STATE = Some (r, S', ev)
    \<longrightarrow> (\<exists>n\<le>length rows.
          written ''tickets'' ev = map as_written (take n rows)
          \<and> (r = None \<longrightarrow> n = length rows)
          \<and> (n < length rows \<longrightarrow>
               r \<noteq> None
               \<and> (\<exists>s s' ev'. ticket_row fuel server CONFIG (state_entity predefined_filter)
                               (get_start CONFIG STATE (state_entity predefined_filter)) (rows ! n) s
                             = Some (r, s', ev')))))
   \<and> map_of (ticket_params start predefined_filter) ''updated_since'' = Some start
   \<and> (map_of kvs ''id'' = Some ident \<and> map_of kvs ''custom_fields'' = Some (JObj d)
    \<and> map_of kvs ''updated_at'' = Some bookmark
    \<and> sync_sub fuel server CONFIG ident ''conversations'' [403] (sub_row ''conversations'' start) STATE
         = Some (None, S1, e1)
    \<and> sync_sub fuel server CONFIG ident ''satisfaction_ratings'' [403] (ratings_row start) S1
         = Some (None, S2, e2)
    \<and> sync_sub fuel server CONFIG ident ''time_entries'' [403, 404] (sub_row ''time_entries'' start) S2
         = Some (None, S3, e3)
    \<longrightarrow> ticket_row fuel server CONFIG ns start (JObj kvs) STATE =
          Some (None, update_state S3 ns bookmark,
                e1 @ e2 @ e3 @
                [UpdateState ns bookmark, WriteRecord ''tickets'' (as_written (JObj kvs)),
                 WriteState (update_state S3 ns bookmark)]))
   \<and> (map_of kvs ''updated_at'' = Some bookmark \<and> py_ge bookmark start = Inr False
    \<longrightarrow> time_filtered_row entity start (JObj kvs) STATE = Some (None, STATE, [])
      \<and> sub_row stream start (JObj kvs) STATE = Some (None, STATE, []))"
proof (intro conjI impI)
  let ?ns = "state_entity predefined_filter"
  let ?start = "get_start CONFIG STATE ?ns"
  assume a: "get_url CONFIG ''tickets'' = Inr url
    \<and> gen_request fuel server url (ticket_params ?start predefined_filter) yield_row []
        = Some (out, rows, sends)
    \<and> sync_tickets_by_filter fuel server CONFIG predefined_filter STATE = Some (r, S', ev)"
  then obtain n where "consumed (ticket_row fuel server CONFIG ?ns ?start) ''tickets'' (\<lambda>row. True)
      as_written rows r ev n"
    using sync_tickets_by_filter_consumed
      [of CONFIG url fuel server STATE predefined_filter out rows sends r S' ev]
    by blast
  then show "\<exists>n\<le>length rows.
          written ''tickets'' ev = map as_written (take n rows)
          \<and> (r = None \<longrightarrow> n = length rows)
          \<and> (n < length rows \<longrightarrow>
               r \<noteq> None
               \<and> (\<exists>s s' ev'. ticket_row fuel server CONFIG ?ns ?start (rows ! n) s = Some (r, s', ev')))"
    unfolding consumed_def by (intro exI [of _ n]) auto
next
  show "map_of (ticket_params start predefined_filter) ''updated_since'' = Some start"
    by (simp add: ticket_params_def Let_def update_conv' split: option.splits)
next
  assume "map_of kvs ''id'' = Some ident \<and> map_of kvs ''custom_fields'' = Some (JObj d)
    \<and> map_of kvs ''updated_at'' = Some bookmark
    \<and> sync_sub fuel server CONFIG ident ''conversations'' [403] (sub_row ''conversations'' start) STATE
         = Some (None, S1, e1)
    \<and> sync_sub fuel server CONFIG ident ''satisfaction_ratings'' [403] (ratings_row start) S1
         = Some (None, S2, e2)
    \<and> sync_sub fuel server CONFIG ident ''time_entries'' [403, 404] (sub_row ''time_entries'' start) S2
         = Some (None, S3, e3)"
  then show "ticket_row fuel server CONFIG ns start (JObj kvs) STATE =
          Some (None, update_state S3 ns bookmark,
                e1 @ e2 @ e3 @
                [UpdateState ns bookmark, WriteRecord ''tickets'' (as_written (JObj kvs)),
                 WriteState (update_state S3 ns bookmark)])"
    using ticket_row_completes [of kvs ident d bookmark fuel server CONFIG start STATE S1 e1 S2 e2 S3 e3 ns]
    by (simp add: as_written_def)
qed (simp_all add: time_filtered_row_def sub_row_def py_getitem_def emit_def)

lemma ticket_7_fields:
  "ticket_7 = JObj [(''id'', JInt 7), (''attachments'', JList []),
                    (''custom_fields'', JObj [(''cf_vip'', JBool False)]),
                    (''updated_at'', JStr ''2019-06-01T00:00:00Z'')]"
  "as_written ticket_7 = ticket_7_written"
  "map as_written [ticket_7] = [ticket_7_written]"
  "written ''tickets'' tickets_trace = [ticket_7_written]"
  "py_ge (JStr ''2019-06-01T00:00:00Z'') acme_start = Inr False"
  "tickets_trace = [Send tickets_url tickets_first_page,
      Send ''https://acme.freshdesk.com/api/v2/tickets/7/conversations'' first_page,
      WriteRecord ''conversations'' conversation_70,
      Send ''https://acme.freshdesk.com/api/v2/tickets/7/satisfaction_ratings'' first_page,
      Send ''https://acme.freshdesk.com/api/v2/tickets/7/time_entries'' first_page,
      UpdateState ''tickets'' (JStr ''2019-06-01T00:00:00Z''),
      WriteRecord ''tickets'' ticket_7_written,
      WriteState [(''tickets'', JStr ''2019-06-01T00:00:00Z'')]]"
  "update_state [] ''tickets'' (JStr ''2019-06-01T00:00:00Z'') = [(''tickets'', JStr ''2019-06-01T00:00:00Z'')]"
  by code_simp+

theorem tickets_emitted_without_comparison_witness:
  "py_ge (JStr ''2019-06-01T00:00:00Z'') acme_start = Inr False
   \<and> gen_request 1 acme_server tickets_url (ticket_params acme_start None) yield_row []
       = Some (None, [ticket_7], [Send tickets_url tickets_first_page])
   \<and> sync_tickets_by_filter 1 acme_server acme None []
       = Some (None, [(''tickets'', JStr ''2019-06-01T00:00:00Z'')], tickets_trace)
   \<and> written ''tickets'' tickets_trace = [ticket_7_written]
   \<and> map_of (ticket_params acme_start None) ''updated_since'' = Some acme_start
   \<and> ticket_row 1 acme_server acme ''tickets'' acme_start ticket_7 [] =
       Some (None, [(''tickets'', JStr ''2019-06-01T00:00:00Z'')],
         [Send ''https://acme.freshdesk.com/api/v2/tickets/7/conversations'' first_page,
          WriteRecord ''conversations'' conversation_70,
          Send ''https://acme.freshdesk.com/api/v2/tickets/7/satisfaction_ratings'' first_page,
          Send ''https://acme.freshdesk.com/api/v2/tickets/7/time_entries'' first_page,
          UpdateState ''tickets'' (JStr ''2019-06-01T00:00:00Z''),
          WriteRecord ''tickets'' ticket_7_written,
          WriteState [(''tickets'', JStr ''2019-06-01T00:00:00Z'')]])
   \<and> time_filtered_row ''roles'' acme_start ticket_7 [] = Some (None, [], [])
   \<and> sub_row ''conversations'' acme_start ticket_7 [] = Some (None, [], [])"
  using tickets_emitted_without_comparison
    [where CONFIG = acme and url = tickets_url and fuel = 1 and server = acme_server and STATE = "[]"
       and predefined_filter = None and out = None and rows = "[ticket_7]"
       and sends = "[Send tickets_url tickets_first_page]" and r = None
       and S' = "[(''tickets'', JStr ''2019-06-01T00:00:00Z'')]" and ev = tickets_trace
       and kvs = "[(''id'', JInt 7), (''attachments'', JList []),
                   (''custom_fields'', JObj [(''cf_vip'', JBool False)]),
                   (''updated_at'', JStr ''2019-06-01T00:00:00Z'')]"
       and ident = "JInt 7" and d = "[(''cf_vip'', JBool False)]"
       and bookmark = "JStr ''2019-06-01T00:00:00Z''" and start = acme_start
       and ?S1.0 = "[]" and ?S2.0 = "[]" and ?S3.0 = "[]" and ns = "''tickets''"
       and entity = "''roles''" and stream = "''conversations''"
       and ?e1.0 = "[Send ''https://acme.freshdesk.com/api/v2/tickets/7/conversations'' first_page,
                     WriteRecord ''conversations'' conversation_70]"
       and ?e2.0 = "[Send ''https://acme.freshdesk.com/api/v2/tickets/7/satisfaction_ratings'' first_page]"
       and ?e3.0 = "[Send ''https://acme.freshdesk.com/api/v2/tickets/7/time_entries'' first_page]"]
    acme_urls tickets_7_yielded tickets_run conversations_7 satisfaction_ratings_7 time_entries_7
    ticket_7_fields(2-5,7) ticket_7_fields(1) [symmetric]
  by simp

text \<open>
  C9 as stated fails: the API returns ticket 8, the request for its conversations is
  answered 400, and the pass ends with that error without having written the ticket.
\<close>

theorem returned_ticket_not_emitted_counterexample:
  "gen_request 1 acme_server_8 tickets_url (ticket_params acme_start None) yield_row []
     = Some (None, [JObj (plain_ticket 8)], [Send tickets_url tickets_first_page])
   \<and> sync_tickets_by_filter 1 acme_server_8 acme None []
     = Some (Some (HTTPError 400 JNull), [],
             [Send tickets_url tickets_first_page,
              Send ''https://acme.freshdesk.com/api/v2/tickets/8/conversations'' first_page])
   \<and> written ''tickets''
        [Send tickets_url tickets_first_page,
         Send ''https://acme.freshdesk.com/api/v2/tickets/8/conversations'' first_page] = []"
  using tickets_8_yielded tickets_8_pass by (simp add: written_def)

section \<open>Records without custom fields\<close>





end
